theory Spec2Isabelle
  imports Complex_Main "HOL-Library.Word"
begin

section \<open>The environment of the program\<close>

text \<open>
  The program \<^verbatim>\<open>cpp_performance_examples.cpp\<close> touches its environment in two ways only: it
  reads \<^verbatim>\<open>std::chrono::high_resolution_clock::now()\<close> and it inserts text into
  \<^verbatim>\<open>std::cout\<close>. Both are recorded, in the order in which they happen, in a history of
  events. \<^verbatim>\<open>endl\<close> inserts a line break and flushes.
\<close>

datatype event = ClockRead int | Put string | Flush

text \<open>
  The clock is an oracle: \<open>ticks w k\<close> is the reading, in nanoseconds since the clock's
  epoch, that the \<open>k\<close>-th call of \<^verbatim>\<open>now()\<close> of this run returns (counting from 0). Nothing
  is assumed about the readings: the C++ standard leaves it to the implementation whether
  \<^verbatim>\<open>high_resolution_clock\<close> is steady (in libstdc++, the library of the \<^verbatim>\<open>g++\<close> named in
  the file's header, it is an alias of \<^verbatim>\<open>system_clock\<close>). The field \<open>user\<close> holds whatever
  state the closures handed to the harness capture.
\<close>

record 's world =
  ticks :: "nat \<Rightarrow> int"
  history :: "event list"
  user :: 's

text \<open>
  A call either returns or leaves by an exception; in both cases the world is as the call
  left it.
\<close>

datatype ('e, 'w) outcome = Returned 'w | Threw 'e 'w

fun and_then :: "('e, 'w) outcome \<Rightarrow> ('w \<Rightarrow> ('e, 'w) outcome) \<Rightarrow> ('e, 'w) outcome" where
  "and_then (Returned w) k = k w"
| "and_then (Threw e w) k = Threw e w"

fun is_read :: "event \<Rightarrow> bool" where
  "is_read (ClockRead t) = True"
| "is_read (Put s) = False"
| "is_read Flush = False"

definition reads :: "event list \<Rightarrow> nat" where
  "reads h = length (filter is_read h)"

fun emitted :: "event \<Rightarrow> string" where
  "emitted (Put s) = s"
| "emitted (ClockRead t) = []"
| "emitted Flush = []"

definition stdout_text :: "event list \<Rightarrow> string" where
  "stdout_text h = concat (map emitted h)"

definition now :: "'s world \<Rightarrow> int \<times> 's world" where
  "now w = (let t = ticks w (reads (history w))
            in (t, w\<lparr>history := history w @ [ClockRead t]\<rparr>))"

definition put :: "string \<Rightarrow> 's world \<Rightarrow> 's world" where
  "put s w = w\<lparr>history := history w @ [Put s]\<rparr>"

definition newline :: char where
  "newline = CHR 0x0A"

definition endl :: "'s world \<Rightarrow> 's world" where
  "endl w = (let w1 = put [newline] w in w1\<lparr>history := history w1 @ [Flush]\<rparr>)"

section \<open>Integer and floating-point arithmetic of the harness\<close>

text \<open>
  \<^verbatim>\<open>duration_cast<microseconds>\<close> of a nanosecond count divides by 1000 with C++ integer
  division, which truncates towards zero. Readings and durations are signed 64-bit counts
  in the program; they are integers here. The two agree where both readings and their
  difference \<^verbatim>\<open>end - start\<close> lie in the 64-bit range (readings less than 292 years apart);
  the properties that depend on the value of the difference carry that condition as a
  hypothesis (\<open>fits_int64\<close> below).
\<close>

definition duration_cast_us :: "int \<Rightarrow> int" where
  "duration_cast_us ns = sgn ns * (\<bar>ns\<bar> div 1000)"

text \<open>Rounding the quotient \<open>p / q\<close> of positive integers to the nearest integer, ties to even.\<close>

definition round_half_even :: "int \<Rightarrow> int \<Rightarrow> int" where
  "round_half_even p q =
     (let d = p div q; r = p mod q
      in if 2 * r < q then d
         else if q < 2 * r then d + 1
         else if even d then d else d + 1)"

text \<open>
  Scaling a fraction \<open>p / q\<close> of positive integers by powers of a base \<open>b\<close> until it lies
  in \<open>[1, b)\<close>: \<open>scale_up\<close> multiplies \<open>q\<close> while the result does not exceed \<open>p\<close>,
  \<open>scale_down\<close> multiplies \<open>p\<close> until it reaches \<open>q\<close>; \<open>ilog_up\<close> and \<open>ilog_down\<close>
  count the multiplications, so that \<open>ilog b p q\<close> is \<open>\<lfloor>log\<^sub>b (p / q)\<rfloor>\<close>.
\<close>

function scale_up :: "int \<Rightarrow> int \<Rightarrow> int \<Rightarrow> int" where
  "scale_up b p q = (if 2 \<le> b \<and> 0 < q \<and> b * q \<le> p then scale_up b p (b * q) else q)"
  by pat_completeness auto
termination
proof (relation "measure (\<lambda>(b, p, q). nat (p - q))")
  show "wf (measure (\<lambda>(b, p, q). nat (p - q)))" by simp
next
  fix b p q :: int
  assume a: "2 \<le> b \<and> 0 < q \<and> b * q \<le> p"
  then have "2 * q \<le> b * q" by simp
  with a have "nat (p - b * q) < nat (p - q)" by linarith
  then show "((b, p, b * q), (b, p, q)) \<in> measure (\<lambda>(b, p, q). nat (p - q))"
    by simp
qed

function ilog_up :: "int \<Rightarrow> int \<Rightarrow> int \<Rightarrow> int" where
  "ilog_up b p q = (if 2 \<le> b \<and> 0 < q \<and> b * q \<le> p then ilog_up b p (b * q) + 1 else 0)"
  by pat_completeness auto
termination
proof (relation "measure (\<lambda>(b, p, q). nat (p - q))")
  show "wf (measure (\<lambda>(b, p, q). nat (p - q)))" by simp
next
  fix b p q :: int
  assume a: "2 \<le> b \<and> 0 < q \<and> b * q \<le> p"
  then have "2 * q \<le> b * q" by simp
  with a have "nat (p - b * q) < nat (p - q)" by linarith
  then show "((b, p, b * q), (b, p, q)) \<in> measure (\<lambda>(b, p, q). nat (p - q))"
    by simp
qed

function scale_down :: "int \<Rightarrow> int \<Rightarrow> int \<Rightarrow> int" where
  "scale_down b p q = (if 2 \<le> b \<and> 0 < p \<and> p < q then scale_down b (b * p) q else p)"
  by pat_completeness auto
termination
proof (relation "measure (\<lambda>(b, p, q). nat (q - p))")
  show "wf (measure (\<lambda>(b, p, q). nat (q - p)))" by simp
next
  fix b p q :: int
  assume a: "2 \<le> b \<and> 0 < p \<and> p < q"
  then have "2 * p \<le> b * p" by simp
  with a have "nat (q - b * p) < nat (q - p)" by linarith
  then show "((b, b * p, q), (b, p, q)) \<in> measure (\<lambda>(b, p, q). nat (q - p))"
    by simp
qed

function ilog_down :: "int \<Rightarrow> int \<Rightarrow> int \<Rightarrow> int" where
  "ilog_down b p q = (if 2 \<le> b \<and> 0 < p \<and> p < q then ilog_down b (b * p) q + 1 else 0)"
  by pat_completeness auto
termination
proof (relation "measure (\<lambda>(b, p, q). nat (q - p))")
  show "wf (measure (\<lambda>(b, p, q). nat (q - p)))" by simp
next
  fix b p q :: int
  assume a: "2 \<le> b \<and> 0 < p \<and> p < q"
  then have "2 * p \<le> b * p" by simp
  with a have "nat (q - b * p) < nat (q - p)" by linarith
  then show "((b, b * p, q), (b, p, q)) \<in> measure (\<lambda>(b, p, q). nat (q - p))"
    by simp
qed

declare scale_up.simps [simp del] ilog_up.simps [simp del]
  scale_down.simps [simp del] ilog_down.simps [simp del]

definition ilog :: "int \<Rightarrow> int \<Rightarrow> int \<Rightarrow> int" where
  "ilog b p q = (if q \<le> p then ilog_up b p q else - ilog_down b p q)"

definition zoom :: "int \<Rightarrow> int \<Rightarrow> int \<Rightarrow> int \<times> int" where
  "zoom b p q = (if q \<le> p then (p, scale_up b p q) else (scale_down b p q, q))"

text \<open>
  \<open>to_double p q\<close> is the IEEE 754 binary64 number nearest to \<open>p / q\<close>, as a fraction: with
  \<open>p / q = (p1 / q1) * 2 ^ E\<close> and \<open>1 \<le> p1 / q1 < 2\<close>, it is \<open>m * 2 ^ (E - 52)\<close> for the
  53-bit integer \<open>m\<close> nearest to \<open>(p1 / q1) * 2 ^ 52\<close>, ties to even. It is what converting
  an integer to \<^verbatim>\<open>double\<close> and what dividing two \<^verbatim>\<open>double\<close>s yield; the magnitudes that occur
  here lie far inside the normal range of the format.
\<close>

definition to_double :: "int \<Rightarrow> int \<Rightarrow> int \<times> int" where
  "to_double p q =
     (let z = zoom 2 p q; p1 = fst z; q1 = snd z;
          m = round_half_even (p1 * 4503599627370496) q1
      in (m * p * q1, p1 * q * 4503599627370496))"

text \<open>
  \<^verbatim>\<open>cout << x\<close> for a \<^verbatim>\<open>double\<close> \<open>x\<close>, with the stream's formatting as it is at program start
  (nothing in the file changes it), prints as \<^verbatim>\<open>printf("%.6g", x)\<close> does: \<open>x\<close> is rounded to
  six significant decimal digits \<open>n\<close> with decimal exponent \<open>X\<close>; fixed notation is used
  when \<open>-4 \<le> X < 6\<close>, scientific notation otherwise; trailing zeros of the fraction, and a
  decimal point left without fraction, are dropped.
\<close>

definition sig6 :: "int \<times> int \<Rightarrow> int \<times> int" where
  "sig6 v =
     (let p = fst v; q = snd v; z = zoom 10 p q; X = ilog 10 p q;
          n = round_half_even (fst z * 100000) (snd z)
      in if 1000000 \<le> n then (100000, X + 1) else (n, X))"

definition digit :: "int \<Rightarrow> char" where
  "digit d = ''0123456789'' ! nat (d mod 10)"

definition dec6 :: "int \<Rightarrow> string" where
  "dec6 n = map (\<lambda>u. digit (n div u)) [100000, 10000, 1000, 100, 10, 1]"

definition exponent_digits :: "int \<Rightarrow> string" where
  "exponent_digits x =
     (if x < 100 then [digit (x div 10), digit x]
      else [digit (x div 100), digit (x div 10), digit x])"

definition strip_zeros :: "string \<Rightarrow> string" where
  "strip_zeros s = rev (dropWhile (\<lambda>c. c = CHR ''0'') (rev s))"

definition with_fraction :: "string \<Rightarrow> string \<Rightarrow> string" where
  "with_fraction ip fr = (if strip_zeros fr = [] then ip else ip @ ''.'' @ strip_zeros fr)"

definition layout_g :: "int \<times> int \<Rightarrow> string" where
  "layout_g m =
     (let n = fst m; X = snd m; ds = dec6 n
      in if X < - 4 \<or> 6 \<le> X
         then with_fraction (take 1 ds) (drop 1 ds) @ ''e'' @ (if X < 0 then ''-'' else ''+'')
              @ exponent_digits \<bar>X\<bar>
         else if 0 \<le> X then with_fraction (take (nat X + 1) ds) (drop (nat X + 1) ds)
         else ''0.'' @ replicate (nat (- X - 1)) CHR ''0'' @ strip_zeros ds)"

text \<open>
  The text printed for \<^verbatim>\<open>duration.count() / 1000.0\<close>: the 64-bit count \<open>c\<close> is converted to
  \<^verbatim>\<open>double\<close>, divided by the \<^verbatim>\<open>double\<close> 1000, and printed. A count of 0 gives the
  \<^verbatim>\<open>double\<close> 0, printed as \<^verbatim>\<open>0\<close>.
\<close>

definition ms_double :: "int \<Rightarrow> int \<times> int" where
  "ms_double a = (let d = to_double a 1 in to_double (fst d) (snd d * 1000))"

definition show_ms :: "int \<Rightarrow> string" where
  "show_ms c =
     (if c = 0 then ''0''
      else (if c < 0 then ''-'' else []) @ layout_g (sig6 (ms_double \<bar>c\<bar>)))"

section \<open>The timing utility\<close>

text \<open>
  \<^verbatim>\<open>
  template<typename Func>
  void timeFunction(const string& name, Func func) {
      auto start = high_resolution_clock::now();
      func();
      auto end = high_resolution_clock::now();
      auto duration = duration_cast<microseconds>(end - start);
      cout << name << ": " << duration.count() / 1000.0 << " ms" << endl;
  }
  \<close>
  There is no \<^verbatim>\<open>try\<close> in the function: an exception of \<^verbatim>\<open>func\<close> leaves it at once.
\<close>

definition timeFunction ::
  "string \<Rightarrow> ('s world \<Rightarrow> ('e, 's world) outcome) \<Rightarrow> 's world \<Rightarrow> ('e, 's world) outcome" where
  "timeFunction name func w =
     (let (start, w1) = now w
      in case func w1 of
           Threw e w2 \<Rightarrow> Threw e w2
         | Returned w2 \<Rightarrow>
             (let (end, w3) = now w2;
                  duration = duration_cast_us (end - start)
              in Returned (endl (put '' ms'' (put (show_ms duration) (put '': '' (put name w3)))))))"

section \<open>The examples and the entry point\<close>

text \<open>
  \<^verbatim>\<open>int sumByValue(vector<int> vec)\<close> and \<^verbatim>\<open>int sumByReference(const vector<int>& vec)\<close>: the
  first receives a copy of the vector, the second the vector itself; each adds the elements
  up in an \<^verbatim>\<open>int\<close>, from 0, in order. An \<^verbatim>\<open>int\<close> is a 32-bit word; where the C++ sum leaves
  the range of \<^verbatim>\<open>int\<close> the word wraps around, as the compiled code does.
\<close>

definition sumByValue :: "32 word list \<Rightarrow> 32 word" where
  "sumByValue vec = (let copy = vec in foldl (\<lambda>sum val. sum + val) 0 copy)"

definition sumByReference :: "32 word list \<Rightarrow> 32 word" where
  "sumByReference vec = foldl (\<lambda>sum val. sum + val) 0 vec"

text \<open>\<^verbatim>\<open>vector<int> data(1000000); for (i...) data[i] = i;\<close>\<close>

definition million :: "32 word list" where
  "million = map of_nat [0..<1000000]"

text \<open>
  A closure whose body only builds, reads and discards containers local to the example:
  it leaves the world as it found it. (Running out of memory is not modelled.)
\<close>

definition locals_only :: "'s world \<Rightarrow> ('e, 's world) outcome" where
  "locals_only v = Returned v"

text \<open>\<^verbatim>\<open>string(70, c)\<close>\<close>

definition ruler :: "char \<Rightarrow> string" where
  "ruler c = replicate 70 c"

text \<open>\<^verbatim>\<open>cout << "\n<title>" << endl; cout << string(70, '-') << endl;\<close>\<close>

definition heading :: "string \<Rightarrow> 's world \<Rightarrow> 's world" where
  "heading title w = endl (put (ruler CHR ''-'') (endl (put (newline # title) w)))"

definition testPassByReference :: "'s world \<Rightarrow> ('e, 's world) outcome" where
  "testPassByReference w =
     (let data = million;
          w1 = heading ''1. Pass by Value vs Reference (1M elements)'' w
      in and_then
           (timeFunction ''Pass by Value (inefficient)''
              (\<lambda>v. let result = sumByValue data in Returned v) w1)
           (timeFunction ''Pass by Reference (efficient)''
              (\<lambda>v. let result = sumByReference data in Returned v)))"

definition testStringConcatenation :: "'s world \<Rightarrow> ('e, 's world) outcome" where
  "testStringConcatenation w =
     (let w1 = heading ''2. String Concatenation (10,000 elements)'' w
      in and_then (timeFunction ''Using += operator (inefficient)'' locals_only w1)
           (timeFunction ''Using reserve + += (efficient)'' locals_only))"

definition testVectorReserve :: "'s world \<Rightarrow> ('e, 's world) outcome" where
  "testVectorReserve w =
     (let w1 = heading ''3. Vector Reserve (100,000 elements)'' w
      in and_then (timeFunction ''Without reserve (inefficient)'' locals_only w1)
           (timeFunction ''With reserve (efficient)'' locals_only))"

definition testEmplaceBack :: "'s world \<Rightarrow> ('e, 's world) outcome" where
  "testEmplaceBack w =
     (let w1 = heading ''4. emplace_back vs push_back (100,000 elements)'' w
      in and_then (timeFunction ''Using push_back (inefficient)'' locals_only w1)
           (timeFunction ''Using emplace_back (efficient)'' locals_only))"

definition testSetLookup :: "'s world \<Rightarrow> ('e, 's world) outcome" where
  "testSetLookup w =
     (let w1 = heading ''5. Set vs Unordered Set (100,000 lookups)'' w
      in and_then (timeFunction ''std::set lookup - O(log n)'' locals_only w1)
           (timeFunction ''std::unordered_set lookup - O(1)'' locals_only))"

definition testCacheSize :: "'s world \<Rightarrow> ('e, 's world) outcome" where
  "testCacheSize w =
     (let w1 = heading ''6. Caching Vector Size (1M iterations)'' w
      in and_then
           (and_then (timeFunction ''Calling size() in loop (inefficient)'' locals_only w1)
              (timeFunction ''Caching size (efficient)'' locals_only))
           (timeFunction ''Range-based for loop (most efficient)'' locals_only))"

definition testMoveSemantics :: "'s world \<Rightarrow> ('e, 's world) outcome" where
  "testMoveSemantics w =
     (let w1 = heading ''7. Copy vs Move Semantics'' w
      in and_then
           (and_then (timeFunction ''Copy constructor (if used)'' locals_only w1)
              (timeFunction ''Move constructor (efficient)'' locals_only))
           (timeFunction ''Return value optimization'' locals_only))"

text \<open>
  \<^verbatim>\<open>main\<close> prints a banner, calls the seven examples one after the other, prints a closing
  banner and returns 0. It has no \<^verbatim>\<open>try\<close>: an exception that reaches it ends the process
  through \<^verbatim>\<open>std::terminate\<close>, without an exit code of \<^verbatim>\<open>main\<close>.
\<close>

datatype ('e, 'w) exit = Exit int 'w | Terminated 'e 'w

definition banner_open :: "'s world \<Rightarrow> 's world" where
  "banner_open w =
     endl (put (ruler CHR ''='')
       (endl (put ''C++ Performance Optimization Examples''
          (endl (put (ruler CHR ''='') w)))))"

definition banner_close :: "'s world \<Rightarrow> 's world" where
  "banner_close w =
     endl (put (ruler CHR ''='')
       (endl (put ''Benchmark Complete!''
          (endl (put (ruler CHR ''='') (put [newline] w))))))"

definition main :: "'s world \<Rightarrow> ('e, 's world) exit" where
  "main w =
     (case and_then (and_then (and_then (and_then (and_then (and_then
             (testPassByReference (banner_open w))
             testStringConcatenation)
             testVectorReserve)
             testEmplaceBack)
             testSetLookup)
             testCacheSize)
             testMoveSemantics
      of Threw e v \<Rightarrow> Terminated e v
       | Returned v \<Rightarrow> Exit 0 (banner_close v))"

section \<open>Notions used to state the properties\<close>

text \<open>What an observer sees of a call: whether it returned, and the world it left.\<close>

fun returned :: "('e, 'w) outcome \<Rightarrow> bool" where
  "returned (Returned w) = True"
| "returned (Threw e w) = False"

fun world_of :: "('e, 'w) outcome \<Rightarrow> 'w" where
  "world_of (Returned w) = w"
| "world_of (Threw e w) = w"

definition output_of :: "('e, 's world) outcome \<Rightarrow> string" where
  "output_of r = stdout_text (history (world_of r))"

text \<open>
  The elapsed count of a call whose work was started in world \<open>w\<close> and left world \<open>w2\<close>:
  the reading taken on \<open>w2\<close> minus the reading taken on \<open>w\<close>, cast to microseconds.
\<close>

definition elapsed_us :: "'s world \<Rightarrow> 's world \<Rightarrow> int" where
  "elapsed_us w w2 = duration_cast_us (fst (now w2) - fst (now w))"

text \<open>The events of the output statement of the harness, in order.\<close>

definition report :: "string \<Rightarrow> int \<Rightarrow> event list" where
  "report name c = [Put name, Put '': '', Put (show_ms c), Put '' ms'', Put [newline], Flush]"

text \<open>
  The measurement line as the specification words it: the label, a colon and a blank, the
  elapsed milliseconds, \<^verbatim>\<open> ms\<close>, and a line break.
\<close>

definition line_body :: "string \<Rightarrow> int \<Rightarrow> string" where
  "line_body name c = name @ '': '' @ show_ms c @ '' ms''"

definition measurement :: "string \<Rightarrow> int \<Rightarrow> string" where
  "measurement name c = line_body name c @ [newline]"

text \<open>The lines of a text: the pieces ended by a line break, and a last unfinished one if any.\<close>

fun lines_from :: "string \<Rightarrow> string \<Rightarrow> string list" where
  "lines_from cur [] = (if cur = [] then [] else [cur])"
| "lines_from cur (c # cs) =
     (if c = newline then cur # lines_from [] cs else lines_from (cur @ [c]) cs)"

definition lines_of :: "string \<Rightarrow> string list" where
  "lines_of s = lines_from [] s"

text \<open>The characters a printed number is made of.\<close>

definition number_chars :: "char set" where
  "number_chars = set ''0123456789.e+-''"

text \<open>
  The number that the text \<open>show_ms c\<close> denotes, in milliseconds: the six digits \<open>n\<close> at
  decimal exponent \<open>X\<close> stand for \<open>n * 10 ^ (X - 5)\<close>.
\<close>

definition printed_value :: "int \<Rightarrow> rat" where
  "printed_value c =
     (if c = 0 then 0
      else (let m = sig6 (ms_double \<bar>c\<bar>); n = fst m; X = snd m
            in of_int (sgn c) * (if 5 \<le> X then of_int n * 10 ^ nat (X - 5)
                                 else of_int n / 10 ^ nat (5 - X))))"

text \<open>A measured duration of \<open>ns\<close> nanoseconds, in milliseconds.\<close>

definition true_ms :: "int \<Rightarrow> rat" where
  "true_ms ns = of_int ns / 1000000"

text \<open>
  The range of a signed 64-bit count, and the subtraction of two such counts as the
  machine performs it: on 64-bit words, read back as a signed number.
\<close>

definition fits_int64 :: "int \<Rightarrow> bool" where
  "fits_int64 x = (- 9223372036854775808 \<le> x \<and> x < 9223372036854775808)"

definition sub64 :: "int \<Rightarrow> int \<Rightarrow> int" where
  "sub64 a b = sint (word_of_int a - word_of_int b :: 64 word)"

text \<open>
  The shape \<^verbatim>\<open>noop: 0.XXX ms\<close> with three digits \<open>XXX\<close>, followed by a line break.
\<close>

definition is_digit :: "char \<Rightarrow> bool" where
  "is_digit ch = (ch \<in> set ''0123456789'')"

definition noop_line_0xxx :: "string \<Rightarrow> bool" where
  "noop_line_0xxx s =
     (length s = 15 \<and> take 8 s = ''noop: 0.'' \<and> list_all is_digit (take 3 (drop 8 s))
      \<and> drop 11 s = '' ms'' @ [newline])"

text \<open>
  The text of one call of the harness when \<open>n\<close> readings of the clock \<open>tk\<close> have been
  taken before it and its work takes none; and the text of a heading.
\<close>

definition timing :: "(nat \<Rightarrow> int) \<Rightarrow> nat \<Rightarrow> string \<Rightarrow> string" where
  "timing tk n name = measurement name (duration_cast_us (tk (Suc n) - tk n))"

definition heading_text :: "string \<Rightarrow> string" where
  "heading_text title = newline # title @ [newline] @ ruler CHR ''-'' @ [newline]"

text \<open>
  What a whole run prints when \<open>n\<close> readings of the clock \<open>tk\<close> were taken before it: the
  banner, the seven sections in the order of the source, the closing banner.
\<close>

definition expected_output :: "(nat \<Rightarrow> int) \<Rightarrow> nat \<Rightarrow> string" where
  "expected_output tk n =
     ruler CHR ''='' @ [newline] @ ''C++ Performance Optimization Examples'' @ [newline]
     @ ruler CHR ''='' @ [newline]
     @ heading_text ''1. Pass by Value vs Reference (1M elements)''
     @ timing tk n ''Pass by Value (inefficient)''
     @ timing tk (n + 2) ''Pass by Reference (efficient)''
     @ heading_text ''2. String Concatenation (10,000 elements)''
     @ timing tk (n + 4) ''Using += operator (inefficient)''
     @ timing tk (n + 6) ''Using reserve + += (efficient)''
     @ heading_text ''3. Vector Reserve (100,000 elements)''
     @ timing tk (n + 8) ''Without reserve (inefficient)''
     @ timing tk (n + 10) ''With reserve (efficient)''
     @ heading_text ''4. emplace_back vs push_back (100,000 elements)''
     @ timing tk (n + 12) ''Using push_back (inefficient)''
     @ timing tk (n + 14) ''Using emplace_back (efficient)''
     @ heading_text ''5. Set vs Unordered Set (100,000 lookups)''
     @ timing tk (n + 16) ''std::set lookup - O(log n)''
     @ timing tk (n + 18) ''std::unordered_set lookup - O(1)''
     @ heading_text ''6. Caching Vector Size (1M iterations)''
     @ timing tk (n + 20) ''Calling size() in loop (inefficient)''
     @ timing tk (n + 22) ''Caching size (efficient)''
     @ timing tk (n + 24) ''Range-based for loop (most efficient)''
     @ heading_text ''7. Copy vs Move Semantics''
     @ timing tk (n + 26) ''Copy constructor (if used)''
     @ timing tk (n + 28) ''Move constructor (efficient)''
     @ timing tk (n + 30) ''Return value optimization''
     @ [newline] @ ruler CHR ''='' @ [newline] @ ''Benchmark Complete!'' @ [newline]
     @ ruler CHR ''='' @ [newline]"

section \<open>Sample environments and sample work\<close>

text \<open>A clock that returns the listed readings in turn (and 0 once they are used up).\<close>

definition readings :: "int list \<Rightarrow> nat \<Rightarrow> int" where
  "readings ts k = (if k < length ts then ts ! k else 0)"

definition fresh :: "(nat \<Rightarrow> int) \<Rightarrow> 's \<Rightarrow> 's world" where
  "fresh tk s = \<lparr>ticks = tk, history = [], user = s\<rparr>"

text \<open>The empty closure \<^verbatim>\<open>[]() {}\<close>.\<close>

definition noop :: "'s world \<Rightarrow> ('e, 's world) outcome" where
  "noop w = Returned w"

text \<open>A closure that increments a captured \<^verbatim>\<open>int\<close> counter \<open>N\<close> times.\<close>

definition bump :: "nat \<Rightarrow> int world \<Rightarrow> ('e, int world) outcome" where
  "bump N w = Returned (w\<lparr>user := ((\<lambda>c. c + 1) ^^ N) (user w)\<rparr>)"

text \<open>A closure that prints a text and returns.\<close>

definition print_only :: "string \<Rightarrow> 's world \<Rightarrow> ('e, 's world) outcome" where
  "print_only s w = Returned (put s w)"

text \<open>A closure that prints a text and then throws.\<close>

definition print_then_throw :: "string \<Rightarrow> 'e \<Rightarrow> 's world \<Rightarrow> ('e, 's world) outcome" where
  "print_then_throw s e w = Threw e (put s w)"

section \<open>Basic facts\<close>

lemma stdout_text_append: "stdout_text (h @ h') = stdout_text h @ stdout_text h'"
  by (simp add: stdout_text_def)

lemma stdout_text_Nil: "stdout_text [] = []"
  by (simp add: stdout_text_def)

lemma stdout_text_Cons: "stdout_text (ev # h) = emitted ev @ stdout_text h"
  by (simp add: stdout_text_def)

lemma stdout_text_report: "stdout_text (report name c) = measurement name c"
  by (simp add: report_def measurement_def line_body_def stdout_text_Cons stdout_text_Nil)

lemma reads_append: "reads (h @ h') = reads h + reads h'"
  by (simp add: reads_def)

lemma reads_report: "reads (report name c) = 0"
  by (simp add: report_def reads_def)

lemma now_fst: "fst (now w) = ticks w (reads (history w))"
  by (simp add: now_def Let_def)

lemma now_snd: "snd (now w) = w\<lparr>history := history w @ [ClockRead (ticks w (reads (history w)))]\<rparr>"
  by (simp add: now_def Let_def)

lemma output_statement:
  "endl (put '' ms'' (put (show_ms c) (put '': '' (put name w))))
     = w\<lparr>history := history w @ report name c\<rparr>"
  by (simp add: endl_def put_def report_def Let_def)

text \<open>The two ways a call of the harness can end.\<close>

lemma timeFunction_Returned:
  assumes "func (snd (now w)) = Returned v"
  shows "timeFunction name func w
           = Returned (v\<lparr>history := history v @ ClockRead (fst (now v))
                                       # report name (elapsed_us w v)\<rparr>)"
proof -
  obtain t0 wa where a: "now w = (t0, wa)" by (cases "now w")
  obtain t1 wb where b: "now v = (t1, wb)" by (cases "now v")
  have wb: "wb = v\<lparr>history := history v @ [ClockRead t1]\<rparr>"
    using b now_fst [of v] now_snd [of v] by simp
  from assms a have f: "func wa = Returned v" by simp
  show ?thesis
    unfolding timeFunction_def
    by (simp add: a b f output_statement elapsed_us_def wb)
qed

lemma timeFunction_Threw:
  assumes "func (snd (now w)) = Threw e v"
  shows "timeFunction name func w = Threw e v"
proof -
  obtain t0 wa where a: "now w = (t0, wa)" by (cases "now w")
  from assms a have f: "func wa = Threw e v" by simp
  show ?thesis
    unfolding timeFunction_def by (simp add: a f)
qed

section \<open>The printed number and the lines of the output\<close>

lemma digit_is_digit: "digit d \<in> number_chars"
proof -
  have "nat (d mod 10) < length ''0123456789''" by simp
  then have "digit d \<in> set ''0123456789''"
    unfolding digit_def by (rule nth_mem)
  moreover have "set ''0123456789'' \<subseteq> number_chars"
    by (simp add: number_chars_def)
  ultimately show ?thesis by blast
qed

lemma number_chars_literals:
  "CHR ''e'' \<in> number_chars" "CHR ''.'' \<in> number_chars" "CHR ''+'' \<in> number_chars"
  "CHR ''-'' \<in> number_chars" "CHR ''0'' \<in> number_chars"
  by (simp_all add: number_chars_def)

lemma newline_not_number_char: "newline \<notin> number_chars"
  by (simp add: number_chars_def newline_def)

lemma dec6_digits: "set (dec6 n) \<subseteq> number_chars"
  using digit_is_digit by (auto simp: dec6_def)

lemma strip_zeros_subset: "set (strip_zeros s) \<subseteq> set s"
  by (auto simp: strip_zeros_def dest: set_dropWhileD)

lemma with_fraction_chars:
  assumes "set ip \<subseteq> number_chars" and "set fr \<subseteq> number_chars"
  shows "set (with_fraction ip fr) \<subseteq> number_chars"
proof -
  have "set (strip_zeros fr) \<subseteq> number_chars"
    using strip_zeros_subset [of fr] assms(2) by blast
  with assms(1) number_chars_literals(2) show ?thesis
    by (simp add: with_fraction_def)
qed

lemma exponent_digits_chars: "set (exponent_digits x) \<subseteq> number_chars"
  using digit_is_digit by (simp add: exponent_digits_def)

lemma layout_g_chars: "set (layout_g m) \<subseteq> number_chars"
proof -
  let ?ds = "dec6 (fst m)"
  have a: "set (with_fraction (take k ?ds) (drop k ?ds)) \<subseteq> number_chars" for k
  proof (rule with_fraction_chars)
    show "set (take k ?ds) \<subseteq> number_chars"
      using set_take_subset [of k ?ds] dec6_digits [of "fst m"] by blast
    show "set (drop k ?ds) \<subseteq> number_chars"
      using set_drop_subset [of k ?ds] dec6_digits [of "fst m"] by blast
  qed
  have b: "set (strip_zeros ?ds) \<subseteq> number_chars"
    using strip_zeros_subset [of ?ds] dec6_digits [of "fst m"] by blast
  have c: "set (exponent_digits \<bar>snd m\<bar>) \<subseteq> number_chars"
    by (rule exponent_digits_chars)
  show ?thesis
    unfolding layout_g_def Let_def
    using a [of 1] a [of "nat (snd m) + 1"] b c number_chars_literals
    by (auto simp del: One_nat_def)
qed

lemma show_ms_chars: "set (show_ms c) \<subseteq> number_chars"
  using layout_g_chars [of "sig6 (ms_double \<bar>c\<bar>)"] number_chars_literals
  by (auto simp: show_ms_def)

lemma show_ms_no_newline: "newline \<notin> set (show_ms c)"
  using show_ms_chars [of c] newline_not_number_char by blast

lemma lines_from_line:
  "newline \<notin> set a \<Longrightarrow> lines_from cur (a @ newline # rest) = (cur @ a) # lines_from [] rest"
  by (induction a arbitrary: cur) auto

lemma line_body_no_newline: "newline \<notin> set name \<Longrightarrow> newline \<notin> set (line_body name c)"
  using show_ms_no_newline [of c] by (simp add: line_body_def newline_def)

lemma lines_from_measurement:
  "newline \<notin> set name \<Longrightarrow>
     lines_from [] (measurement name c @ rest) = line_body name c # lines_from [] rest"
  using lines_from_line [OF line_body_no_newline, of name "[]" c rest]
  by (simp add: measurement_def)


lemma reads_Cons: "reads (ev # h) = (if is_read ev then Suc (reads h) else reads h)"
  by (simp add: reads_def)

lemma reads_Nil: "reads [] = 0"
  by (simp add: reads_def)

lemma timeFunction_untouched:
  assumes "\<And>v. func v = Returned v"
  shows "\<exists>v. timeFunction name func w = Returned v \<and> ticks v = ticks w \<and> user v = user w
           \<and> reads (history v) = reads (history w) + 2
           \<and> stdout_text (history v)
               = stdout_text (history w) @ timing (ticks w) (reads (history w)) name"
proof -
  let ?u = "snd (now w)"
  let ?v = "?u\<lparr>history := history ?u @ ClockRead (fst (now ?u)) # report name (elapsed_us w ?u)\<rparr>"
  have f: "func ?u = Returned ?u" by (rule assms)
  have tf: "timeFunction name func w = Returned ?v"
    using timeFunction_Returned [where func = func and w = w and v = ?u and name = name] f
    by simp
  have r: "reads (history ?u) = Suc (reads (history w))"
    by (simp add: now_snd reads_append reads_Cons reads_Nil)
  have t: "ticks ?u = ticks w"
    by (simp add: now_snd)
  have e: "elapsed_us w ?u
             = duration_cast_us (ticks w (Suc (reads (history w))) - ticks w (reads (history w)))"
    unfolding elapsed_us_def now_fst r t ..
  have 1: "ticks ?v = ticks w" by (simp add: now_snd)
  have 2: "user ?v = user w" by (simp add: now_snd)
  have 3: "reads (history ?v) = reads (history w) + 2"
    by (simp add: reads_append reads_Cons reads_report r)
  have "stdout_text (history ?u) = stdout_text (history w)"
    by (simp add: now_snd stdout_text_append stdout_text_Cons stdout_text_Nil)
  then have 4: "stdout_text (history ?v)
                  = stdout_text (history w) @ timing (ticks w) (reads (history w)) name"
    by (simp add: stdout_text_append stdout_text_Cons stdout_text_report e timing_def)
  from tf 1 2 3 4 show ?thesis by blast
qed

lemma heading_observed:
  "ticks (heading title w) = ticks w \<and> user (heading title w) = user w
   \<and> reads (history (heading title w)) = reads (history w)
   \<and> stdout_text (history (heading title w)) = stdout_text (history w) @ heading_text title"
  by (simp add: heading_def endl_def put_def Let_def reads_def stdout_text_def heading_text_def)

lemma two_timings:
  assumes "\<And>v. f1 v = Returned v" and "\<And>v. f2 v = Returned v"
  shows "\<exists>v. and_then (timeFunction n1 f1 (heading title w)) (timeFunction n2 f2) = Returned v
           \<and> ticks v = ticks w \<and> user v = user w
           \<and> reads (history v) = reads (history w) + 4
           \<and> stdout_text (history v)
               = stdout_text (history w) @ heading_text title
                 @ timing (ticks w) (reads (history w)) n1
                 @ timing (ticks w) (reads (history w) + 2) n2"
proof -
  obtain a where a: "timeFunction n1 f1 (heading title w) = Returned a" "ticks a = ticks w"
    "user a = user w" "reads (history a) = reads (history w) + 2"
    "stdout_text (history a) = stdout_text (history w) @ heading_text title
       @ timing (ticks w) (reads (history w)) n1"
    using timeFunction_untouched [of f1 n1 "heading title w", OF assms(1)]
      heading_observed [of title w]
    by auto
  obtain b where b: "timeFunction n2 f2 a = Returned b" "ticks b = ticks w"
    "user b = user w" "reads (history b) = reads (history w) + 4"
    "stdout_text (history b) = stdout_text (history a)
       @ timing (ticks w) (reads (history w) + 2) n2"
    using timeFunction_untouched [of f2 n2 a, OF assms(2)] a(2-4)
    by auto
  from a b show ?thesis by simp
qed

lemma three_timings:
  assumes "\<And>v. f1 v = Returned v" and "\<And>v. f2 v = Returned v" and "\<And>v. f3 v = Returned v"
  shows "\<exists>v. and_then (and_then (timeFunction n1 f1 (heading title w)) (timeFunction n2 f2))
                (timeFunction n3 f3) = Returned v
           \<and> ticks v = ticks w \<and> user v = user w
           \<and> reads (history v) = reads (history w) + 6
           \<and> stdout_text (history v)
               = stdout_text (history w) @ heading_text title
                 @ timing (ticks w) (reads (history w)) n1
                 @ timing (ticks w) (reads (history w) + 2) n2
                 @ timing (ticks w) (reads (history w) + 4) n3"
proof -
  obtain a where a: "and_then (timeFunction n1 f1 (heading title w)) (timeFunction n2 f2)
                       = Returned a" "ticks a = ticks w"
    "user a = user w" "reads (history a) = reads (history w) + 4"
    "stdout_text (history a) = stdout_text (history w) @ heading_text title
       @ timing (ticks w) (reads (history w)) n1
       @ timing (ticks w) (reads (history w) + 2) n2"
    using two_timings [of f1 f2 n1 title w n2, OF assms(1) assms(2)] by auto
  obtain b where b: "timeFunction n3 f3 a = Returned b" "ticks b = ticks w"
    "user b = user w" "reads (history b) = reads (history w) + 6"
    "stdout_text (history b) = stdout_text (history a)
       @ timing (ticks w) (reads (history w) + 4) n3"
    using timeFunction_untouched [of f3 n3 a, OF assms(3)] a(2-4)
    by auto
  from a b show ?thesis by simp
qed

section \<open>The examples and the entry point: what a run prints\<close>

lemma testPassByReference_observed:
  "\<exists>v. testPassByReference w = Returned v \<and> ticks v = ticks w \<and> user v = user w
     \<and> reads (history v) = reads (history w) + 4
     \<and> stdout_text (history v)
         = stdout_text (history w) @ heading_text ''1. Pass by Value vs Reference (1M elements)''
           @ timing (ticks w) (reads (history w)) ''Pass by Value (inefficient)''
           @ timing (ticks w) (reads (history w) + 2) ''Pass by Reference (efficient)''"
  unfolding testPassByReference_def Let_def by (rule two_timings) simp_all

lemma testStringConcatenation_observed:
  "\<exists>v. testStringConcatenation w = Returned v \<and> ticks v = ticks w \<and> user v = user w
     \<and> reads (history v) = reads (history w) + 4
     \<and> stdout_text (history v)
         = stdout_text (history w) @ heading_text ''2. String Concatenation (10,000 elements)''
           @ timing (ticks w) (reads (history w)) ''Using += operator (inefficient)''
           @ timing (ticks w) (reads (history w) + 2) ''Using reserve + += (efficient)''"
  unfolding testStringConcatenation_def Let_def
  by (rule two_timings) (simp_all add: locals_only_def)

lemma testVectorReserve_observed:
  "\<exists>v. testVectorReserve w = Returned v \<and> ticks v = ticks w \<and> user v = user w
     \<and> reads (history v) = reads (history w) + 4
     \<and> stdout_text (history v)
         = stdout_text (history w) @ heading_text ''3. Vector Reserve (100,000 elements)''
           @ timing (ticks w) (reads (history w)) ''Without reserve (inefficient)''
           @ timing (ticks w) (reads (history w) + 2) ''With reserve (efficient)''"
  unfolding testVectorReserve_def Let_def
  by (rule two_timings) (simp_all add: locals_only_def)

lemma testEmplaceBack_observed:
  "\<exists>v. testEmplaceBack w = Returned v \<and> ticks v = ticks w \<and> user v = user w
     \<and> reads (history v) = reads (history w) + 4
     \<and> stdout_text (history v)
         = stdout_text (history w)
           @ heading_text ''4. emplace_back vs push_back (100,000 elements)''
           @ timing (ticks w) (reads (history w)) ''Using push_back (inefficient)''
           @ timing (ticks w) (reads (history w) + 2) ''Using emplace_back (efficient)''"
  unfolding testEmplaceBack_def Let_def
  by (rule two_timings) (simp_all add: locals_only_def)

lemma testSetLookup_observed:
  "\<exists>v. testSetLookup w = Returned v \<and> ticks v = ticks w \<and> user v = user w
     \<and> reads (history v) = reads (history w) + 4
     \<and> stdout_text (history v)
         = stdout_text (history w) @ heading_text ''5. Set vs Unordered Set (100,000 lookups)''
           @ timing (ticks w) (reads (history w)) ''std::set lookup - O(log n)''
           @ timing (ticks w) (reads (history w) + 2) ''std::unordered_set lookup - O(1)''"
  unfolding testSetLookup_def Let_def
  by (rule two_timings) (simp_all add: locals_only_def)

lemma testCacheSize_observed:
  "\<exists>v. testCacheSize w = Returned v \<and> ticks v = ticks w \<and> user v = user w
     \<and> reads (history v) = reads (history w) + 6
     \<and> stdout_text (history v)
         = stdout_text (history w) @ heading_text ''6. Caching Vector Size (1M iterations)''
           @ timing (ticks w) (reads (history w)) ''Calling size() in loop (inefficient)''
           @ timing (ticks w) (reads (history w) + 2) ''Caching size (efficient)''
           @ timing (ticks w) (reads (history w) + 4) ''Range-based for loop (most efficient)''"
  unfolding testCacheSize_def Let_def
  by (rule three_timings) (simp_all add: locals_only_def)

lemma testMoveSemantics_observed:
  "\<exists>v. testMoveSemantics w = Returned v \<and> ticks v = ticks w \<and> user v = user w
     \<and> reads (history v) = reads (history w) + 6
     \<and> stdout_text (history v)
         = stdout_text (history w) @ heading_text ''7. Copy vs Move Semantics''
           @ timing (ticks w) (reads (history w)) ''Copy constructor (if used)''
           @ timing (ticks w) (reads (history w) + 2) ''Move constructor (efficient)''
           @ timing (ticks w) (reads (history w) + 4) ''Return value optimization''"
  unfolding testMoveSemantics_def Let_def
  by (rule three_timings) (simp_all add: locals_only_def)

lemma banner_open_observed:
  "ticks (banner_open w) = ticks w \<and> user (banner_open w) = user w
   \<and> reads (history (banner_open w)) = reads (history w)
   \<and> stdout_text (history (banner_open w))
       = stdout_text (history w) @ ruler CHR ''='' @ [newline]
         @ ''C++ Performance Optimization Examples'' @ [newline] @ ruler CHR ''='' @ [newline]"
  by (simp add: banner_open_def endl_def put_def Let_def reads_def stdout_text_def)

lemma banner_close_observed:
  "stdout_text (history (banner_close w))
     = stdout_text (history w) @ [newline] @ ruler CHR ''='' @ [newline]
       @ ''Benchmark Complete!'' @ [newline] @ ruler CHR ''='' @ [newline]"
  by (simp add: banner_close_def endl_def put_def Let_def stdout_text_def)

section \<open>The sign of the printed number\<close>

lemma digit_not_minus: "digit d \<noteq> CHR ''-''"
proof -
  have "nat (d mod 10) < length ''0123456789''" by simp
  then have "digit d \<in> set ''0123456789''"
    unfolding digit_def by (rule nth_mem)
  then show ?thesis by auto
qed

lemma hd_with_fraction: "ip \<noteq> [] \<Longrightarrow> hd (with_fraction ip fr @ rest) = hd ip"
  by (simp add: with_fraction_def)

lemma dec6_Cons: "dec6 n = digit (n div 100000) # map (\<lambda>u. digit (n div u)) [10000, 1000, 100, 10, 1]"
  by (simp add: dec6_def)

lemma hd_layout_g: "hd (layout_g m) \<noteq> CHR ''-''"
proof -
  let ?ds = "dec6 (fst m)"
  have a: "hd (with_fraction (take (Suc k) ?ds) (drop (Suc k) ?ds) @ rest)
             = digit (fst m div 100000)" for k rest
    by (subst hd_with_fraction) (simp_all add: dec6_Cons)
  have b: "hd (with_fraction (take (Suc k) ?ds) (drop (Suc k) ?ds)) \<noteq> CHR ''-''" for k
    using a [of k "[]"] digit_not_minus [of "fst m div 100000"] by simp
  have c: "hd (with_fraction (take (Suc k) ?ds) (drop (Suc k) ?ds) @ rest) \<noteq> CHR ''-''"
    for k rest
    using a [of k rest] digit_not_minus [of "fst m div 100000"] by simp
  show ?thesis
  proof (cases "snd m < - 4 \<or> 6 \<le> snd m")
    case True
    then show ?thesis
      unfolding layout_g_def Let_def using c [of 0] by simp
  next
    case False
    then show ?thesis
      unfolding layout_g_def Let_def using b [of "nat (snd m)"] by simp
  qed
qed

lemma show_ms_no_sign: "0 \<le> c \<Longrightarrow> hd (show_ms c) \<noteq> CHR ''-''"
  using hd_layout_g [of "sig6 (ms_double \<bar>c\<bar>)"] by (simp add: show_ms_def)

lemma duration_cast_us_nonneg: "0 \<le> ns \<Longrightarrow> duration_cast_us ns = ns div 1000"
  by (cases "ns = 0") (simp_all add: duration_cast_us_def)

lemma lines_of_measurement:
  "newline \<notin> set name \<Longrightarrow> lines_from [] (measurement name c) = [line_body name c]"
  using lines_from_measurement [of name c "[]"] by simp

section \<open>The printed number of a duration below one second\<close>

text \<open>
  A count \<open>c\<close> of less than a million microseconds has at most six significant digits.
  The two roundings to \<^verbatim>\<open>double\<close> change \<open>c / 1000\<close> by a relative error of less than
  \<^verbatim>\<open>1e-15\<close>, so rounding to six significant digits gives \<open>c / 1000\<close> back: below
  one second the printed number is exact.
\<close>

lemma scale_up_spec:
  "2 \<le> b \<Longrightarrow> 0 < q \<Longrightarrow> q \<le> p \<Longrightarrow>
     \<exists>k. scale_up b p q = q * b ^ k \<and> ilog_up b p q = int k
         \<and> q * b ^ k \<le> p \<and> p < b * (q * b ^ k)"
proof (induction b p q rule: scale_up.induct)
  case (1 b p q)
  show ?case
  proof (cases "b * q \<le> p")
    case True
    with 1(2,3) have c: "2 \<le> b \<and> 0 < q \<and> b * q \<le> p" by simp
    from 1(2,3) have "0 < b * q" by simp
    from 1(1) [OF c 1(2) this True]
    obtain k where k: "scale_up b p (b * q) = b * q * b ^ k" "ilog_up b p (b * q) = int k"
      "b * q * b ^ k \<le> p" "p < b * (b * q * b ^ k)"
      by blast
    have s: "scale_up b p q = scale_up b p (b * q)"
      by (subst scale_up.simps) (simp add: c)
    have i: "ilog_up b p q = ilog_up b p (b * q) + 1"
      by (subst ilog_up.simps) (simp add: c)
    show ?thesis
      using k s i by (intro exI [of _ "Suc k"]) (simp add: ac_simps)
  next
    case False
    have s: "scale_up b p q = q"
      by (subst scale_up.simps) (simp add: False)
    have i: "ilog_up b p q = 0"
      by (subst ilog_up.simps) (simp add: False)
    show ?thesis
      using False 1(4) s i by (intro exI [of _ 0]) simp
  qed
qed

lemma scale_down_spec:
  "2 \<le> b \<Longrightarrow> 0 < p \<Longrightarrow> p < q \<Longrightarrow>
     \<exists>k. scale_down b p q = p * b ^ k \<and> ilog_down b p q = int k
         \<and> q \<le> p * b ^ k \<and> p * b ^ k < b * q"
proof (induction b p q rule: scale_down.induct)
  case (1 b p q)
  have c: "2 \<le> b \<and> 0 < p \<and> p < q" using 1(2-4) by simp
  have s: "scale_down b p q = scale_down b (b * p) q"
    by (subst scale_down.simps) (simp add: c)
  have i: "ilog_down b p q = ilog_down b (b * p) q + 1"
    by (subst ilog_down.simps) (simp add: c)
  show ?case
  proof (cases "b * p < q")
    case True
    from 1(2,3) have "0 < b * p" by simp
    from 1(1) [OF c 1(2) this True]
    obtain k where k: "scale_down b (b * p) q = b * p * b ^ k" "ilog_down b (b * p) q = int k"
      "q \<le> b * p * b ^ k" "b * p * b ^ k < b * q"
      by blast
    show ?thesis
      using k s i by (intro exI [of _ "Suc k"]) (simp add: ac_simps)
  next
    case False
    have s': "scale_down b (b * p) q = b * p"
      by (subst scale_down.simps) (simp add: False)
    have i': "ilog_down b (b * p) q = 0"
      by (subst ilog_down.simps) (simp add: False)
    have "b * p < b * q" using 1(2,4) by simp
    then show ?thesis
      using False s i s' i' by (intro exI [of _ "Suc 0"]) (simp add: ac_simps)
  qed
qed

lemma round_half_even_near:
  assumes "0 < q" and "0 \<le> p"
  shows "\<bar>2 * (round_half_even p q * q - p)\<bar> \<le> q"
proof -
  define d r where "d = p div q" and "r = p mod q"
  have p: "p = d * q + r" by (simp add: d_def r_def)
  have r: "0 \<le> r" "r < q" using assms(1) by (simp_all add: r_def)
  have e: "(d + 1) * q = d * q + q" by (simp add: algebra_simps)
  show ?thesis
    unfolding round_half_even_def Let_def d_def [symmetric] r_def [symmetric]
    using r e by (auto simp: p)
qed

lemma zoom_bounds:
  assumes "2 \<le> b" and "0 < p" and "0 < q"
  shows "0 < fst (zoom b p q) \<and> 0 < snd (zoom b p q)
         \<and> snd (zoom b p q) \<le> fst (zoom b p q)
         \<and> fst (zoom b p q) < b * snd (zoom b p q)
         \<and> (of_int (fst (zoom b p q)) :: rat) / of_int (snd (zoom b p q))
             = of_int p / of_int q * of_int b powi (- ilog b p q)"
proof (cases "q \<le> p")
  case True
  from scale_up_spec [OF assms(1) assms(3) True]
  obtain k where k: "scale_up b p q = q * b ^ k" "ilog_up b p q = int k"
    "q * b ^ k \<le> p" "p < b * (q * b ^ k)"
    by blast
  have b: "0 < b ^ k" using assms(1) by simp
  then have "0 < q * b ^ k" using assms(3) by simp
  moreover have "(of_int p :: rat) / of_int (q * b ^ k)
                   = of_int p / of_int q * of_int b powi (- int k)"
    by (simp add: power_int_minus field_simps)
  ultimately show ?thesis
    using True k assms(2) by (simp add: zoom_def ilog_def)
next
  case False
  then have lt: "p < q" by simp
  from scale_down_spec [OF assms(1) assms(2) lt]
  obtain k where k: "scale_down b p q = p * b ^ k" "ilog_down b p q = int k"
    "q \<le> p * b ^ k" "p * b ^ k < b * q"
    by blast
  have "0 < b ^ k" using assms(1) by simp
  then have "0 < p * b ^ k" using assms(2) by simp
  moreover have "(of_int (p * b ^ k) :: rat) / of_int q
                   = of_int p / of_int q * of_int b powi (int k)"
    by simp
  ultimately show ?thesis
    using False k assms(3) by (simp add: zoom_def ilog_def)
qed

lemma to_double_error:
  assumes "0 < p" and "0 < q"
  shows "0 < fst (to_double p q) \<and> 0 < snd (to_double p q)
         \<and> \<bar>(of_int (fst (to_double p q)) :: rat) / of_int (snd (to_double p q))
              - of_int p / of_int q\<bar>
            \<le> of_int p / of_int q * (1 / 2 ^ 53)"
proof -
  define T where "T = (4503599627370496 :: int)"
  define p1 q1 where "p1 = fst (zoom 2 p q)" and "q1 = snd (zoom 2 p q)"
  define m where "m = round_half_even (p1 * T) q1"
  define e where "e = m * q1 - p1 * T"
  have T: "0 < T" "T = 2 ^ 52" by (simp_all add: T_def)
  have z: "0 < p1" "0 < q1" "q1 \<le> p1"
    using zoom_bounds [of 2 p q] assms by (simp_all add: p1_def q1_def)
  have td: "to_double p q = (m * p * q1, p1 * q * T)"
    by (simp add: to_double_def Let_def m_def p1_def q1_def T_def)
  have near: "\<bar>2 * e\<bar> \<le> q1"
    unfolding e_def m_def using round_half_even_near [of q1 "p1 * T"] z T by simp
  have "2 * e = 2 * (m * q1) - 2 * (p1 * T)"
    by (simp add: e_def algebra_simps)
  moreover have "- q1 \<le> 2 * e" using near by linarith
  ultimately have "p1 * T - q1 < m * q1 + q1"
    using z(2) by linarith
  moreover have "q1 * 2 \<le> p1 * T"
    using z T by (intro mult_mono) simp_all
  ultimately have "0 < m * q1" using z(2) by linarith
  then have m: "0 < m" using z by (simp add: zero_less_mult_iff)
  have P: "0 < m * p * q1" using m assms z by simp
  have Q: "0 < p1 * q * T" using assms z T by simp
  let ?p = "of_int p :: rat" and ?q = "of_int q :: rat" and ?p1 = "of_int p1 :: rat"
    and ?q1 = "of_int q1 :: rat" and ?m = "of_int m :: rat" and ?T = "of_int T :: rat"
    and ?e = "of_int e :: rat"
  have pos: "0 < ?p" "0 < ?q" "0 < ?p1" "0 < ?q1" "0 < ?T"
    using assms z T by simp_all
  have d: "?m * ?p * ?q1 / (?p1 * ?q * ?T) - ?p / ?q = ?p / ?q * (?e / (?p1 * ?T))"
  proof -
    have e: "?e = ?m * ?q1 - ?p1 * ?T" by (simp add: e_def)
    show ?thesis unfolding e using pos by (simp add: field_simps)
  qed
  have "\<bar>2 * e\<bar> \<le> p1" using near z by linarith
  then have "\<bar>of_int (2 * e) :: rat\<bar> \<le> of_int p1"
    by (simp only: of_int_abs [symmetric] of_int_le_iff)
  then have e2: "\<bar>?e\<bar> \<le> ?p1 / 2" by simp
  have "\<bar>?e / (?p1 * ?T)\<bar> = \<bar>?e\<bar> / (?p1 * ?T)"
    using pos by (simp add: abs_mult)
  also have "\<dots> \<le> (?p1 / 2) / (?p1 * ?T)"
    using e2 pos by (intro divide_right_mono) simp_all
  also have "\<dots> = 1 / (2 * ?T)" using pos by simp
  finally have b: "\<bar>?e / (?p1 * ?T)\<bar> \<le> 1 / (2 * ?T)" .
  have "\<bar>?p / ?q * (?e / (?p1 * ?T))\<bar> = ?p / ?q * \<bar>?e / (?p1 * ?T)\<bar>"
    using pos by (simp add: abs_mult)
  also have "\<dots> \<le> ?p / ?q * (1 / (2 * ?T))"
    using b pos by (intro mult_left_mono) simp_all
  finally have "\<bar>?m * ?p * ?q1 / (?p1 * ?q * ?T) - ?p / ?q\<bar> \<le> ?p / ?q * (1 / (2 * ?T))"
    unfolding d .
  moreover have "2 * ?T = 2 ^ 53" by (simp add: T_def)
  ultimately show ?thesis
    using P Q by (simp add: td)
qed

lemma compose_error:
  fixes r s t d e :: rat
  assumes "\<bar>s - t\<bar> \<le> t * d" and "\<bar>r - s\<bar> \<le> s * d" and "0 \<le> d" and "0 \<le> t"
    and "2 * d + d * d \<le> e"
  shows "\<bar>r - t\<bar> \<le> t * e"
proof -
  have "s \<le> t + t * d" using assms(1) by linarith
  then have "s * d \<le> (t + t * d) * d"
    using assms(3) by (rule mult_right_mono)
  then have "\<bar>r - s\<bar> \<le> t * d + t * (d * d)"
    using assms(2) by (simp add: algebra_simps)
  then have "\<bar>r - t\<bar> \<le> t * (2 * d + d * d)"
    using assms(1) by (simp add: algebra_simps)
  also have "\<dots> \<le> t * e"
    using assms(4,5) by (rule mult_left_mono [rotated])
  finally show ?thesis .
qed

lemma ms_double_error:
  assumes "0 < c"
  shows "0 < fst (ms_double c) \<and> 0 < snd (ms_double c)
         \<and> \<bar>(of_int (fst (ms_double c)) :: rat) / of_int (snd (ms_double c)) - of_int c / 1000\<bar>
            \<le> of_int c / 1000 * (1 / 10 ^ 15)"
proof -
  define P1 Q1 where "P1 = fst (to_double c 1)" and "Q1 = snd (to_double c 1)"
  have 1: "0 < P1" "0 < Q1"
    "\<bar>(of_int P1 :: rat) / of_int Q1 - of_int c\<bar> \<le> of_int c * (1 / 2 ^ 53)"
    using to_double_error [of c 1] assms by (simp_all add: P1_def Q1_def)
  have md: "ms_double c = to_double P1 (Q1 * 1000)"
    by (simp add: ms_double_def Let_def P1_def Q1_def)
  have Q1000: "0 < Q1 * 1000" using 1(2) by simp
  note 2 = to_double_error [OF 1(1) Q1000, folded md]
  let ?r = "(of_int (fst (ms_double c)) :: rat) / of_int (snd (ms_double c))"
  let ?s = "(of_int P1 :: rat) / of_int (Q1 * 1000)"
  let ?t = "(of_int c :: rat) / 1000"
  have s: "?s = (of_int P1 / of_int Q1) / 1000" by simp
  have "?s - ?t = ((of_int P1 :: rat) / of_int Q1 - of_int c) / 1000"
    unfolding s by (simp add: diff_divide_distrib)
  then have "\<bar>?s - ?t\<bar> = \<bar>(of_int P1 :: rat) / of_int Q1 - of_int c\<bar> / 1000"
    by (simp only: abs_divide) simp?
  also have "\<dots> \<le> (of_int c * (1 / 2 ^ 53)) / 1000"
    using 1(3) by (intro divide_right_mono) simp_all
  finally have a: "\<bar>?s - ?t\<bar> \<le> ?t * (1 / 2 ^ 53)" by simp
  have b: "\<bar>?r - ?s\<bar> \<le> ?s * (1 / 2 ^ 53)" using 2 by blast
  have "\<bar>?r - ?t\<bar> \<le> ?t * (1 / 10 ^ 15)"
    using a b
  proof (rule compose_error)
    show "(0::rat) \<le> 1 / 2 ^ 53" by simp
    show "0 \<le> ?t" using assms by simp
    show "2 * (1 / 2 ^ 53) + 1 / 2 ^ 53 * (1 / 2 ^ 53) \<le> (1::rat) / 10 ^ 15" by simp
  qed
  then show ?thesis using 2 by blast
qed

lemma sig6_rounding:
  assumes "0 < P" and "0 < Q"
  defines "X0 \<equiv> ilog 10 P Q"
  defines "n0 \<equiv> round_half_even (fst (zoom 10 P Q) * 100000) (snd (zoom 10 P Q))"
  defines "u \<equiv> (of_int P :: rat) / of_int Q * 10 powi (5 - X0)"
  shows "sig6 (P, Q) = (if 1000000 \<le> n0 then (100000, X0 + 1) else (n0, X0))"
    and "100000 \<le> u" and "u < 1000000" and "\<bar>of_int n0 - u\<bar> \<le> 1 / 2"
proof -
  define p1 q1 where "p1 = fst (zoom 10 P Q)" and "q1 = snd (zoom 10 P Q)"
  have z: "0 < p1" "0 < q1" "q1 \<le> p1" "p1 < 10 * q1"
    "(of_int p1 :: rat) / of_int q1 = of_int P / of_int Q * 10 powi (- X0)"
    using zoom_bounds [of 10 P Q] assms(1,2) by (simp_all add: p1_def q1_def X0_def)
  show "sig6 (P, Q) = (if 1000000 \<le> n0 then (100000, X0 + 1) else (n0, X0))"
    by (simp add: sig6_def Let_def n0_def X0_def)
  have "(10::rat) powi (5 - X0) = 10 powi 5 * 10 powi (- X0)"
    by (simp add: power_int_diff power_int_minus field_simps)
  then have u': "u = of_int p1 / of_int q1 * 100000"
    unfolding u_def z(5) by simp
  define rho where "rho = (of_int p1 :: rat) / of_int q1"
  have u: "u = rho * 100000" by (simp add: u' rho_def)
  have q: "(0::rat) < of_int q1" using z(2) by simp
  have "(of_int q1 :: rat) \<le> of_int p1" using z(3) by (simp only: of_int_le_iff)
  then have "1 \<le> rho" using q by (simp add: rho_def field_simps)
  then show "100000 \<le> u" unfolding u by linarith
  have "(of_int p1 :: rat) < of_int (10 * q1)" using z(4) by (simp only: of_int_less_iff)
  then have "rho < 10" using q by (simp add: rho_def field_simps)
  then show "u < 1000000" unfolding u by linarith
  have n: "n0 = round_half_even (p1 * 100000) q1"
    by (simp add: n0_def p1_def q1_def)
  have "\<bar>2 * (n0 * q1 - p1 * 100000)\<bar> \<le> q1"
    unfolding n using round_half_even_near [of q1 "p1 * 100000"] z by simp
  then have "\<bar>of_int (2 * (n0 * q1 - p1 * 100000)) :: rat\<bar> \<le> of_int q1"
    by (simp only: of_int_abs [symmetric] of_int_le_iff)
  moreover define w where "w = (of_int n0 * of_int q1 - of_int p1 * 100000 :: rat)"
  ultimately have "\<bar>2 * w\<bar> \<le> of_int q1" by simp
  then have "\<bar>w\<bar> \<le> of_int q1 / 2" by linarith
  then have "\<bar>w\<bar> / of_int q1 \<le> (of_int q1 / 2) / of_int q1"
    using q by (intro divide_right_mono) simp_all
  then have "\<bar>w\<bar> / of_int q1 \<le> 1 / 2" using q by simp
  moreover have "of_int n0 - u = w / of_int q1"
    unfolding w_def u' using q by (simp add: field_simps)
  then have "\<bar>of_int n0 - u\<bar> = \<bar>w\<bar> / of_int q1"
    by (simp only: abs_divide abs_of_pos [OF q])
  ultimately show "\<bar>of_int n0 - u\<bar> \<le> 1 / 2" by simp
qed

lemma nearest_six_digits:
  fixes r t :: rat and n0 n' a a' :: int
  assumes lo: "100000 \<le> r * 10 powi a" and hi: "r * 10 powi a < 1000000"
    and near: "\<bar>of_int n0 - r * 10 powi a\<bar> \<le> 1 / 2"
    and t: "t * 10 powi a' = of_int n'" and n': "100000 \<le> n'" "n' < 1000000"
    and err: "\<bar>r - t\<bar> \<le> t * (1 / 10 ^ 15)"
  shows "(a = a' \<and> n0 = n') \<or> (a = a' + 1 \<and> n0 = 1000000 \<and> n' = 100000)"
proof -
  define u where "u = r * 10 powi a'"
  define g where "g = a - a'"
  have s: "(0::rat) < 10 powi a'" by simp
  have "\<bar>u - of_int n'\<bar> = \<bar>r - t\<bar> * 10 powi a'"
    unfolding u_def t [symmetric] by (simp add: abs_mult left_diff_distrib [symmetric])
  also have "\<dots> \<le> t * (1 / 10 ^ 15) * 10 powi a'"
    using err by (intro mult_right_mono) simp_all
  also have "\<dots> = of_int n' / 10 ^ 15" using t by simp
  also have "\<dots> \<le> 1000000 / 10 ^ 15"
    using n'(2) by (intro divide_right_mono) simp_all
  finally have un: "\<bar>u - of_int n'\<bar> \<le> 1 / 1000000000" by simp
  have nl: "(100000::rat) \<le> of_int n'" using n'(1) by simp
  have nh: "of_int n' \<le> (999999::rat)" using n'(2) by simp
  have ul: "99999 < u" using un nl by linarith
  have uh: "u < 1000000" using un nh by linarith
  have ra: "r * 10 powi a = u * 10 powi g"
    unfolding u_def g_def by (simp add: power_int_diff)
  have g01: "g = 0 \<or> g = 1"
  proof (rule ccontr)
    assume "\<not> (g = 0 \<or> g = 1)"
    then consider "2 \<le> g" | "g \<le> - 1" by linarith
    then show False
    proof cases
      case 1
      then have "(10::rat) powi 2 \<le> 10 powi g"
        by (intro power_int_increasing) simp_all
      then have "u * 100 \<le> u * 10 powi g"
        using ul by (intro mult_left_mono) simp_all
      with ul hi ra show False by linarith
    next
      case 2
      then have "(10::rat) powi g \<le> 10 powi (- 1)"
        by (intro power_int_increasing) simp_all
      then have "u * 10 powi g \<le> u * (1 / 10)"
        using ul by (intro mult_left_mono) (simp_all add: power_int_minus)
      with uh lo ra show False by linarith
    qed
  qed
  then show ?thesis
  proof
    assume g: "g = 0"
    then have "r * 10 powi a = u" using ra by simp
    with near un have "\<bar>(of_int n0 :: rat) - of_int n'\<bar> < 1" by linarith
    then have "\<bar>of_int (n0 - n') :: rat\<bar> < of_int 1" by simp
    then have "\<bar>n0 - n'\<bar> < 1"
      by (simp only: of_int_abs [symmetric] of_int_less_iff)
    with g show ?thesis by (simp add: g_def)
  next
    assume g: "g = 1"
    then have e: "r * 10 powi a = u * 10" using ra by simp
    from e hi have "u < 100000" by linarith
    with un have "of_int n' < (100001::rat)" by linarith
    then have "n' < 100001" by simp
    with n'(1) have n1: "n' = 100000" by linarith
    have "of_int n' = (100000::rat)" using n1 by simp
    with un have "100000 - 1 / 1000000000 \<le> u" by linarith
    with e near have "(999999::rat) < of_int n0" by linarith
    then have "999999 < n0" by simp
    moreover from e near \<open>u < 100000\<close> have "of_int n0 < (1000001::rat)" by linarith
    then have "n0 < 1000001" by simp
    ultimately have "n0 = 1000000" by linarith
    with g n1 show ?thesis by (simp add: g_def)
  qed
qed

lemma sig6_ms_double_nearest:
  assumes "0 < c" and "(of_int c :: rat) / 1000 * 10 powi a' = of_int n'"
    and "100000 \<le> n'" and "n' < 1000000"
  shows "sig6 (ms_double c) = (n', 5 - a')"
proof -
  define P Q where "P = fst (ms_double c)" and "Q = snd (ms_double c)"
  define X0 where "X0 = ilog 10 P Q"
  define n0 where "n0 = round_half_even (fst (zoom 10 P Q) * 100000) (snd (zoom 10 P Q))"
  have m: "0 < P" "0 < Q"
    "\<bar>(of_int P :: rat) / of_int Q - of_int c / 1000\<bar> \<le> of_int c / 1000 * (1 / 10 ^ 15)"
    using ms_double_error [OF assms(1)] by (simp_all add: P_def Q_def)
  note s = sig6_rounding [OF m(1,2), folded X0_def n0_def]
  from nearest_six_digits [OF s(2) s(3) s(4) assms(2) assms(3) assms(4) m(3)]
  have "(5 - X0 = a' \<and> n0 = n') \<or> (5 - X0 = a' + 1 \<and> n0 = 1000000 \<and> n' = 100000)" .
  then have "sig6 (P, Q) = (n', 5 - a')"
    using s(1) assms(4) by auto
  then show ?thesis by (simp add: P_def Q_def)
qed

lemma sig6_ms_double_exact:
  assumes "1 \<le> c" and "c < 1000000"
  shows "sig6 (ms_double c)
           = (if c < 10 then (c * 100000, - 3)
              else if c < 100 then (c * 10000, - 2)
              else if c < 1000 then (c * 1000, - 1)
              else if c < 10000 then (c * 100, 0)
              else if c < 100000 then (c * 10, 1)
              else (c, 2))"
proof -
  have c: "0 < c" using assms(1) by simp
  consider "c < 10" | "10 \<le> c" "c < 100" | "100 \<le> c" "c < 1000" | "1000 \<le> c" "c < 10000"
    | "10000 \<le> c" "c < 100000" | "100000 \<le> c"
    by linarith
  then show ?thesis
  proof cases
    case 1
    have "sig6 (ms_double c) = (c * 100000, 5 - 8)"
      using assms 1 by (intro sig6_ms_double_nearest [OF c]) simp_all
    with 1 show ?thesis by simp
  next
    case 2
    have "sig6 (ms_double c) = (c * 10000, 5 - 7)"
      using assms 2 by (intro sig6_ms_double_nearest [OF c]) simp_all
    with 2 show ?thesis by simp
  next
    case 3
    have "sig6 (ms_double c) = (c * 1000, 5 - 6)"
      using assms 3 by (intro sig6_ms_double_nearest [OF c]) simp_all
    with 3 show ?thesis by simp
  next
    case 4
    have "sig6 (ms_double c) = (c * 100, 5 - 5)"
      using assms 4 by (intro sig6_ms_double_nearest [OF c]) simp_all
    with 4 show ?thesis by simp
  next
    case 5
    have "sig6 (ms_double c) = (c * 10, 5 - 4)"
      using assms 5 by (intro sig6_ms_double_nearest [OF c]) simp_all
    with 5 show ?thesis by simp
  next
    case 6
    have "sig6 (ms_double c) = (c, 5 - 3)"
      using assms 6 by (intro sig6_ms_double_nearest [OF c]) simp_all
    with 6 show ?thesis by simp
  qed
qed

lemma printed_value_exact:
  assumes "0 \<le> c" and "c < 1000000"
  shows "printed_value c = of_int c / 1000"
proof (cases "c = 0")
  case True
  then show ?thesis by (simp add: printed_value_def)
next
  case False
  with assms have c: "1 \<le> c" by simp
  then have a: "\<bar>c\<bar> = c" "sgn c = 1" by simp_all
  show ?thesis
    unfolding printed_value_def Let_def a sig6_ms_double_exact [OF c assms(2)]
    using False by simp
qed


lemma digit_zero_iff: "digit x = CHR ''0'' \<longleftrightarrow> x mod 10 = 0"
proof -
  have "x mod 10 = 0 \<or> x mod 10 = 1 \<or> x mod 10 = 2 \<or> x mod 10 = 3 \<or> x mod 10 = 4
        \<or> x mod 10 = 5 \<or> x mod 10 = 6 \<or> x mod 10 = 7 \<or> x mod 10 = 8 \<or> x mod 10 = 9"
    by presburger
  then show ?thesis
    by (elim disjE) (simp_all add: digit_def)
qed

lemma digit_times_10: "digit (x * 10) = CHR ''0''"
  by (simp add: digit_zero_iff)

lemma strip_zeros_snoc_zero: "strip_zeros (xs @ [CHR ''0'']) = strip_zeros xs"
  by (simp add: strip_zeros_def)

lemma strip_zeros_snoc: "d \<noteq> CHR ''0'' \<Longrightarrow> strip_zeros (xs @ [d]) = xs @ [d]"
  by (simp add: strip_zeros_def)

lemma strip_zeros_Cons: "strip_zeros xs \<noteq> [] \<Longrightarrow> strip_zeros (x # xs) = x # strip_zeros xs"
  by (simp add: strip_zeros_def dropWhile_append split: if_splits)

lemma strip_zeros_nonempty: "x \<noteq> CHR ''0'' \<Longrightarrow> strip_zeros (x # xs) \<noteq> []"
  by (simp add: strip_zeros_def dropWhile_append)

lemma strip_three_zeros: "strip_zeros [a, b, d, CHR ''0'', CHR ''0'', CHR ''0''] = strip_zeros [a, b, d]"
  using strip_zeros_snoc_zero [of "[a, b, d]"] strip_zeros_snoc_zero [of "[a, b, d, CHR ''0'']"]
    strip_zeros_snoc_zero [of "[a, b, d, CHR ''0'', CHR ''0'']"]
  by simp

lemma dec6_shifted:
  "dec6 (c * 100000) = [digit c, CHR ''0'', CHR ''0'', CHR ''0'', CHR ''0'', CHR ''0'']"
  "dec6 (c * 10000) = [digit (c div 10), digit c, CHR ''0'', CHR ''0'', CHR ''0'', CHR ''0'']"
  "dec6 (c * 1000)
     = [digit (c div 100), digit (c div 10), digit c, CHR ''0'', CHR ''0'', CHR ''0'']"
  by (simp_all add: dec6_def digit_zero_iff)




lemma show_ms_sub_millisecond:
  assumes "1 \<le> c" and "c < 1000"
  shows "show_ms c = ''0.'' @ strip_zeros [digit (c div 100), digit (c div 10), digit c]"
proof -
  have s: "show_ms c = layout_g (sig6 (ms_double c))"
    using assms(1) by (simp add: show_ms_def)
  have e: "sig6 (ms_double c)
             = (if c < 10 then (c * 100000, - 3)
                else if c < 100 then (c * 10000, - 2) else (c * 1000, - 1))"
    using sig6_ms_double_exact [of c] assms by simp
  consider "c < 10" | "10 \<le> c" "c < 100" | "100 \<le> c" by linarith
  then show ?thesis
  proof cases
    case 1
    have d: "digit c \<noteq> CHR ''0''"
      unfolding digit_zero_iff using assms(1) 1 by simp
    have "layout_g (c * 100000, - 3) = ''0.00'' @ strip_zeros (dec6 (c * 100000))"
      by (simp add: layout_g_def Let_def numeral_2_eq_2)
    also have "strip_zeros (dec6 (c * 100000)) = [digit c]"
      unfolding dec6_shifted using d by (simp add: strip_zeros_def)
    finally have "show_ms c = ''0.00'' @ [digit c]"
      using 1 by (simp add: s e)
    moreover have "strip_zeros [digit (c div 100), digit (c div 10), digit c]
                     = [CHR ''0'', CHR ''0'', digit c]"
      using 1 assms(1) d by (simp add: strip_zeros_def digit_def)
    ultimately show ?thesis by simp
  next
    case 2
    have "(c div 10) mod 10 \<noteq> 0" using 2 by presburger
    then have d: "digit (c div 10) \<noteq> CHR ''0''"
      by (simp add: digit_zero_iff)
    have "layout_g (c * 10000, - 2) = ''0.0'' @ strip_zeros (dec6 (c * 10000))"
      by (simp add: layout_g_def Let_def)
    also have "strip_zeros (dec6 (c * 10000)) = strip_zeros [digit (c div 10), digit c]"
      unfolding dec6_shifted by (simp add: strip_zeros_def)
    finally have "show_ms c = ''0.0'' @ strip_zeros [digit (c div 10), digit c]"
      using 2 by (simp add: s e)
    moreover have ne: "strip_zeros [digit (c div 10), digit c] \<noteq> []"
      by (rule strip_zeros_nonempty [OF d])
    have "c div 100 = 0" using 2 assms(1) by simp
    then have "strip_zeros [digit (c div 100), digit (c div 10), digit c]
                 = CHR ''0'' # strip_zeros [digit (c div 10), digit c]"
      using strip_zeros_Cons [OF ne, of "CHR ''0''"]
      by (simp add: digit_def)
    ultimately show ?thesis by simp
  next
    case 3
    have "layout_g (c * 1000, - 1) = ''0.'' @ strip_zeros (dec6 (c * 1000))"
      by (simp add: layout_g_def Let_def)
    also have "strip_zeros (dec6 (c * 1000))
                 = strip_zeros [digit (c div 100), digit (c div 10), digit c]"
      unfolding dec6_shifted by (rule strip_three_zeros)
    finally show ?thesis
      using 3 by (simp add: s e)
  qed
qed


section \<open>Subtracting 64-bit counts\<close>

text \<open>
  Where the difference of two counts lies in the 64-bit range, the machine's subtraction
  gives that difference; where it does not, the result wraps around.
\<close>

lemma sub64_exact: "fits_int64 (a - b) \<Longrightarrow> sub64 a b = a - b"
proof -
  assume f: "fits_int64 (a - b)"
  have "sub64 a b = sint (word_of_int (a - b) :: 64 word)"
    by (simp only: sub64_def wi_hom_sub)
  also have "\<dots> = signed_take_bit (LENGTH(64) - 1) (a - b)"
    by (rule sint_sbintrunc')
  also have "\<dots> = signed_take_bit 63 (a - b)" by simp
  also have "\<dots> = a - b"
    using f by (intro signed_take_bit_int_eq_self) (simp_all add: fits_int64_def)
  finally show ?thesis .
qed

lemma sub64_wraps: "sub64 4611686018427387904 (- 9223372036854775808) = - 4611686018427387904"
  by (simp add: sub64_def)

section \<open>The harness: running the work\<close>

text \<open>
  C1: the harness runs the work exactly once and to completion before it returns: for every
  label, when the work increments a captured counter \<open>N\<close> times, the harness returns and
  the counter has gone up by exactly \<open>N\<close>.
\<close>

theorem timeFunction_runs_work_once:
  fixes w :: "int world"
  assumes "\<forall>u. \<exists>v. func u = Returned v \<and> user v = ((\<lambda>c. c + 1) ^^ N) (user u)"
  shows "\<exists>w'. timeFunction name func w = Returned w' \<and> user w' = user w + int N"
proof -
  from assms obtain v where f: "func (snd (now w)) = Returned v"
    and u: "user v = ((\<lambda>c. c + 1) ^^ N) (user (snd (now w)))"
    by blast
  have k: "((\<lambda>c. c + 1) ^^ n) x = x + int n" for n and x :: int
    by (induction n) simp_all
  have "user v = user w + int N"
    using u by (simp add: k now_snd)
  then show ?thesis
    using timeFunction_Returned [where func = func and w = w and v = v and name = name] f
    by simp
qed

theorem timeFunction_runs_work_once_witness:
  "\<exists>w'. timeFunction ''count'' (bump 3) (fresh (readings [10, 20]) 0) = Returned w' \<and> user w' = 3"
proof -
  have h: "\<forall>u. \<exists>v. bump 3 u = Returned v \<and> user v = ((\<lambda>c. c + 1) ^^ 3) (user u)"
    by (simp add: bump_def)
  show ?thesis
    using timeFunction_runs_work_once
      [where func = "bump 3" and N = 3 and name = "''count''" and w = "fresh (readings [10, 20]) 0"] h
    by (simp add: fresh_def)
qed

text \<open>
  C2: when both readings are 64-bit counts whose difference is one too, and the reading
  taken after the work is not earlier than the reading taken before it, the subtraction in
  the harness yields that difference, the elapsed count that the harness reports is not
  negative, and the printed number carries no minus sign. (The harness reads
  \<^verbatim>\<open>high_resolution_clock\<close>, which need not be steady, so the premise on the order of the
  readings is not guaranteed by the code.)
\<close>

theorem nonnegative_unless_clock_steps_back:
  assumes "func (snd (now w)) = Returned v" and "fst (now w) \<le> fst (now v)"
    and "fits_int64 (fst (now w))" and "fits_int64 (fst (now v))"
    and "fits_int64 (fst (now v) - fst (now w))"
  shows "sub64 (fst (now v)) (fst (now w)) = fst (now v) - fst (now w)
         \<and> elapsed_us w v = duration_cast_us (sub64 (fst (now v)) (fst (now w)))
         \<and> 0 \<le> elapsed_us w v
         \<and> output_of (timeFunction name func w)
             = stdout_text (history v) @ name @ '': '' @ show_ms (elapsed_us w v) @ '' ms''
               @ [newline]
         \<and> hd (show_ms (elapsed_us w v)) \<noteq> CHR ''-''"
proof -
  have s: "sub64 (fst (now v)) (fst (now w)) = fst (now v) - fst (now w)"
    using assms(5) by (rule sub64_exact)
  have e: "elapsed_us w v = duration_cast_us (sub64 (fst (now v)) (fst (now w)))"
    unfolding s by (simp add: elapsed_us_def)
  have c: "0 \<le> elapsed_us w v"
    using assms(2) by (simp add: elapsed_us_def duration_cast_us_nonneg)
  have o: "output_of (timeFunction name func w)
             = stdout_text (history v) @ measurement name (elapsed_us w v)"
    using timeFunction_Returned [where func = func and w = w and v = v and name = name] assms(1)
    by (simp add: output_of_def stdout_text_append stdout_text_Cons stdout_text_report)
  have o': "output_of (timeFunction name func w)
             = stdout_text (history v) @ name @ '': '' @ show_ms (elapsed_us w v) @ '' ms''
               @ [newline]"
    unfolding o by (simp add: measurement_def line_body_def)
  from s e c o' show_ms_no_sign [OF c] show ?thesis by blast
qed

theorem nonnegative_unless_clock_steps_back_witness:
  "fits_int64 3000 \<and> fits_int64 5000 \<and> fits_int64 (5000 - 3000)
   \<and> sub64 5000 3000 = 5000 - 3000
   \<and> 0 \<le> elapsed_us (fresh (readings [3000, 5000]) ()) (snd (now (fresh (readings [3000, 5000]) ())))
   \<and> output_of (timeFunction ''t'' (noop :: unit world \<Rightarrow> (unit, unit world) outcome)
        (fresh (readings [3000, 5000]) ())) = ''t: 0.002 ms'' @ [newline]"
proof -
  let ?w = "fresh (readings [3000, 5000]) () :: unit world"
  let ?f = "noop :: unit world \<Rightarrow> (unit, unit world) outcome"
  have 1: "?f (snd (now ?w)) = Returned (snd (now ?w))"
    by (simp add: noop_def)
  have a: "fst (now ?w) = 3000" "fst (now (snd (now ?w))) = 5000"
    by (simp_all add: now_fst now_snd fresh_def reads_def readings_def)
  have 2: "fst (now ?w) \<le> fst (now (snd (now ?w)))"
    unfolding a by simp
  have r: "fits_int64 (fst (now ?w))" "fits_int64 (fst (now (snd (now ?w))))"
    "fits_int64 (fst (now (snd (now ?w))) - fst (now ?w))"
    unfolding a by (simp_all add: fits_int64_def)
  have 3: "elapsed_us ?w (snd (now ?w)) = 2"
    by (simp add: elapsed_us_def a duration_cast_us_def)
  have 4: "show_ms 2 = ''0.002''" by code_simp
  have 5: "stdout_text (history (snd (now ?w))) = []"
    by (simp add: now_snd fresh_def stdout_text_def)
  note t = nonnegative_unless_clock_steps_back [where name = "''t''" and w = ?w
      and v = "snd (now ?w)" and func = ?f, OF 1 2 r, unfolded 3 4 5 a]
  from t r [unfolded a] show ?thesis by (simp add: 3)
qed

text \<open>
  With a clock that is set back by two microseconds while the work runs, the harness
  reports a negative duration.
\<close>

theorem clock_stepping_back_counterexample:
  "elapsed_us (fresh (readings [5000, 3000]) ()) (snd (now (fresh (readings [5000, 3000]) ()))) = - 2
   \<and> output_of (timeFunction ''t'' (noop :: unit world \<Rightarrow> (unit, unit world) outcome)
        (fresh (readings [5000, 3000]) ())) = ''t: -0.002 ms'' @ [newline]"
  by code_simp

text \<open>
  C3: when the work throws, the harness does not catch the exception: the call ends with
  that exception, in the world exactly as the work left it, so that no measurement line
  (and nothing else) has been printed by the harness.
\<close>

theorem timeFunction_propagates_failure:
  assumes "func (snd (now w)) = Threw e v"
  shows "timeFunction name func w = Threw e v
         \<and> \<not> returned (timeFunction name func w)
         \<and> output_of (timeFunction name func w) = stdout_text (history v)"
  using timeFunction_Threw [where func = func and w = w and v = v and e = e and name = name] assms
  by (simp add: output_of_def)

theorem timeFunction_propagates_failure_witness:
  "timeFunction ''bad'' (print_then_throw ''oh'' (7::nat)) (fresh (readings [10, 20]) ())
     = Threw 7 \<lparr>ticks = readings [10, 20], history = [ClockRead 10, Put ''oh''], user = ()\<rparr>
   \<and> output_of (timeFunction ''bad'' (print_then_throw ''oh'' (7::nat)) (fresh (readings [10, 20]) ()))
     = ''oh''"
proof -
  have h: "print_then_throw ''oh'' (7::nat) (snd (now (fresh (readings [10, 20]) ())))
             = Threw 7 \<lparr>ticks = readings [10, 20], history = [ClockRead 10, Put ''oh''], user = ()\<rparr>"
    by (simp add: print_then_throw_def put_def now_snd fresh_def reads_def readings_def)
  show ?thesis
    using timeFunction_propagates_failure
      [where func = "print_then_throw ''oh'' (7::nat)" and w = "fresh (readings [10, 20]) ()"
         and e = 7 and name = "''bad''"
         and v = "\<lparr>ticks = readings [10, 20], history = [ClockRead 10, Put ''oh''], user = ()\<rparr>"] h
    by (simp add: output_of_def stdout_text_def)
qed

text \<open>
  C4: for every label that contains no line break and every work that returns, the harness
  returns and adds to standard output exactly one line: the label, \<^verbatim>\<open>: \<close>, the elapsed
  milliseconds, \<^verbatim>\<open> ms\<close>, and a line break.
\<close>

theorem one_line_per_call:
  assumes "newline \<notin> set name" and "func (snd (now w)) = Returned v"
  shows "returned (timeFunction name func w)
         \<and> output_of (timeFunction name func w)
             = stdout_text (history v) @ line_body name (elapsed_us w v) @ [newline]
         \<and> newline \<notin> set (line_body name (elapsed_us w v))
         \<and> lines_of (measurement name (elapsed_us w v))
             = [name @ '': '' @ show_ms (elapsed_us w v) @ '' ms'']"
proof -
  have "lines_from [] (measurement name (elapsed_us w v) @ [])
          = line_body name (elapsed_us w v) # lines_from [] []"
    using assms(1) by (rule lines_from_measurement)
  then have l: "lines_of (measurement name (elapsed_us w v)) = [line_body name (elapsed_us w v)]"
    by (simp add: lines_of_def)
  show ?thesis
    using timeFunction_Returned [where func = func and w = w and v = v and name = name] assms(2)
      line_body_no_newline [OF assms(1), of "elapsed_us w v"] l
    by (simp add: output_of_def stdout_text_append stdout_text_Cons stdout_text_report
        measurement_def) (simp add: line_body_def)
qed

theorem one_line_per_call_witness:
  "output_of (timeFunction ''fast'' (noop :: unit world \<Rightarrow> (unit, unit world) outcome)
       (fresh (readings [0, 7000]) ()))
     = ''fast: 0.007 ms'' @ [newline]
   \<and> lines_of (measurement ''fast'' 7) = [''fast: 0.007 ms'']"
proof -
  let ?w = "fresh (readings [0, 7000]) () :: unit world"
  let ?f = "noop :: unit world \<Rightarrow> (unit, unit world) outcome"
  have 0: "newline \<notin> set ''fast''" by (simp add: newline_def)
  have 1: "?f (snd (now ?w)) = Returned (snd (now ?w))"
    by (simp add: noop_def)
  have 2: "elapsed_us ?w (snd (now ?w)) = 7"
    by (simp add: elapsed_us_def now_fst now_snd fresh_def reads_def readings_def
        duration_cast_us_def)
  have 3: "show_ms 7 = ''0.007''" by code_simp
  have 4: "stdout_text (history (snd (now ?w))) = []"
    by (simp add: now_snd fresh_def stdout_text_def)
  note t = one_line_per_call [where name = "''fast''" and w = ?w and v = "snd (now ?w)"
      and func = ?f, OF 0 1, unfolded 2 3 4]
  then show ?thesis by (simp add: line_body_def 3)
qed

text \<open>
  The label is copied to the output as it is: a label with a line break inside makes the
  harness write two lines, and neither of them contains the whole label.
\<close>

theorem label_with_line_break_counterexample:
  "lines_of (output_of (timeFunction [CHR ''a'', newline, CHR ''b'']
       (noop :: unit world \<Rightarrow> (unit, unit world) outcome) (fresh (readings [0, 0]) ())))
     = [''a'', ''b: 0 ms'']"
  by code_simp

text \<open>
  C5: called with the label \<^verbatim>\<open>noop\<close> and the empty closure, the harness returns (no
  exception) and writes the line \<^verbatim>\<open>noop: <e> ms\<close>, where \<^verbatim>\<open><e>\<close> is the elapsed time as the
  stream prints a \<^verbatim>\<open>double\<close> by default. When the second reading is not earlier than the
  first and less than a millisecond later, \<^verbatim>\<open><e>\<close> is \<^verbatim>\<open>0\<close> if less than a microsecond
  elapsed, and otherwise \<^verbatim>\<open>0.\<close> followed by the three digits of the microsecond count
  without their trailing zeros.
\<close>

theorem noop_line:
  fixes w :: "'s world"
  shows "returned (timeFunction ''noop'' noop w :: ('e, 's world) outcome)
     \<and> output_of (timeFunction ''noop'' noop w :: ('e, 's world) outcome)
         = stdout_text (history w) @ ''noop: '' @ show_ms (elapsed_us w (snd (now w)))
           @ '' ms'' @ [newline]
     \<and> (0 \<le> fst (now (snd (now w))) - fst (now w)
          \<and> fst (now (snd (now w))) - fst (now w) < 1000000 \<longrightarrow>
          show_ms (elapsed_us w (snd (now w)))
            = (if fst (now (snd (now w))) - fst (now w) < 1000 then ''0''
               else ''0.'' @ strip_zeros [digit (elapsed_us w (snd (now w)) div 100),
                                          digit (elapsed_us w (snd (now w)) div 10),
                                          digit (elapsed_us w (snd (now w)))]))"
proof -
  let ?d = "fst (now (snd (now w))) - fst (now w)"
  let ?c = "elapsed_us w (snd (now w))"
  have f: "noop (snd (now w)) = (Returned (snd (now w)) :: ('e, 's world) outcome)"
    by (simp add: noop_def)
  have o: "timeFunction ''noop'' noop w
             = (Returned ((snd (now w))\<lparr>history := history (snd (now w))
                   @ ClockRead (fst (now (snd (now w)))) # report ''noop'' ?c\<rparr>)
                :: ('e, 's world) outcome)"
    using timeFunction_Returned [where func = "noop :: 's world \<Rightarrow> ('e, 's world) outcome"
        and w = w and v = "snd (now w)" and name = "''noop''"] f
    by simp
  have t: "stdout_text (history (snd (now w))) = stdout_text (history w)"
    by (simp add: now_snd stdout_text_append stdout_text_Cons stdout_text_Nil)
  have 1: "output_of (timeFunction ''noop'' noop w :: ('e, 's world) outcome)
             = stdout_text (history w) @ ''noop: '' @ show_ms ?c @ '' ms'' @ [newline]"
    unfolding o
    by (simp add: output_of_def stdout_text_append stdout_text_Cons stdout_text_report t
        measurement_def line_body_def)
  have 2: "show_ms ?c = (if ?d < 1000 then ''0''
             else ''0.'' @ strip_zeros [digit (?c div 100), digit (?c div 10), digit ?c])"
    if "0 \<le> ?d" and "?d < 1000000"
  proof -
    have c: "?c = ?d div 1000"
      using that(1) by (simp add: elapsed_us_def duration_cast_us_nonneg)
    show ?thesis
    proof (cases "?d < 1000")
      case True
      with that(1) have "?c = 0" unfolding c by simp
      with True show ?thesis by (simp add: show_ms_def)
    next
      case False
      then have "1 \<le> ?c" unfolding c by simp
      moreover have "?c < 1000" unfolding c using that(2) by simp
      ultimately show ?thesis
        using False show_ms_sub_millisecond [of ?c] by simp
    qed
  qed
  from o 1 2 show ?thesis by simp
qed

theorem noop_line_witness:
  "output_of (timeFunction ''noop'' (noop :: unit world \<Rightarrow> (unit, unit world) outcome)
       (fresh (readings [100, 120350]) ())) = ''noop: 0.12 ms'' @ [newline]
   \<and> show_ms 120 = ''0.12''"
proof -
  let ?w = "fresh (readings [100, 120350]) () :: unit world"
  have d: "fst (now (snd (now ?w))) - fst (now ?w) = 120250"
    by (simp add: now_fst now_snd fresh_def reads_def readings_def)
  have c: "elapsed_us ?w (snd (now ?w)) = 120"
    by (simp add: elapsed_us_def d duration_cast_us_def)
  have s: "stdout_text (history ?w) = []"
    by (simp add: fresh_def stdout_text_def)
  note t = noop_line [where w = ?w and ?'e = unit, unfolded d c s]
  then show ?thesis by (simp add: digit_def strip_zeros_def)
qed

text \<open>
  With readings 250 nanoseconds apart the line is \<^verbatim>\<open>noop: 0 ms\<close>, which has no decimal
  point and no three digits after it.
\<close>

theorem default_format_counterexample:
  "output_of (timeFunction ''noop'' (noop :: unit world \<Rightarrow> (unit, unit world) outcome)
        (fresh (readings [100, 350]) ())) = ''noop: 0 ms'' @ [newline]
   \<and> \<not> noop_line_0xxx (output_of (timeFunction ''noop''
        (noop :: unit world \<Rightarrow> (unit, unit world) outcome) (fresh (readings [100, 350]) ())))"
  by code_simp

text \<open>
  C6: between the reading of the start timestamp and the reading of the end timestamp the
  harness does nothing but run the work: when the work returns having added the events
  \<open>evs\<close> to the history, the history of the call is the start reading, \<open>evs\<close>, the end
  reading, and only then the events of the output statement.
\<close>

theorem only_work_between_timestamps:
  assumes "func (snd (now w)) = Returned v"
    and "history v = history (snd (now w)) @ evs"
  shows "history (world_of (timeFunction name func w))
           = history w @ [ClockRead (fst (now w))] @ evs @ [ClockRead (fst (now v))]
               @ report name (elapsed_us w v)"
  using timeFunction_Returned [where func = func and w = w and v = v and name = name] assms
  by (simp add: now_snd now_fst)

theorem only_work_between_timestamps_witness:
  "history (world_of (timeFunction ''t''
       (print_only ''hi'' :: unit world \<Rightarrow> (unit, unit world) outcome)
       (fresh (readings [5, 2005]) ())))
     = [ClockRead 5, Put ''hi'', ClockRead 2005, Put ''t'', Put '': '', Put ''0.002'',
        Put '' ms'', Put [newline], Flush]"
proof -
  let ?w = "fresh (readings [5, 2005]) () :: unit world"
  let ?f = "print_only ''hi'' :: unit world \<Rightarrow> (unit, unit world) outcome"
  let ?v = "put ''hi'' (snd (now ?w))"
  have 1: "?f (snd (now ?w)) = Returned ?v" by (simp add: print_only_def)
  have 2: "history ?v = history (snd (now ?w)) @ [Put ''hi'']" by (simp add: put_def)
  have 3: "show_ms 2 = ''0.002''" by code_simp
  show ?thesis
    using only_work_between_timestamps [where func = ?f and w = ?w and v = ?v
        and evs = "[Put ''hi'']" and name = "''t''"] 1 2
    by (simp add: now_fst now_snd put_def fresh_def reads_def readings_def elapsed_us_def
        duration_cast_us_def report_def 3)
qed

text \<open>
  C7: two calls in a row, with labels that contain no line break and work that touches
  nothing, both return; together they add exactly two lines to standard output, in the
  order of the calls, each with the label of its own call and the elapsed time between
  the two readings of its own call; the captured state and the clock are as before.
\<close>

theorem two_calls_two_lines:
  fixes w :: "'s world"
  assumes "newline \<notin> set l1" and "newline \<notin> set l2"
  shows "\<exists>v1 v2. timeFunction l1 noop w = (Returned v1 :: ('e, 's world) outcome)
     \<and> timeFunction l2 noop v1 = (Returned v2 :: ('e, 's world) outcome)
     \<and> stdout_text (history v2)
         = stdout_text (history w) @ timing (ticks w) (reads (history w)) l1
           @ timing (ticks w) (reads (history w) + 2) l2
     \<and> user v2 = user w \<and> ticks v2 = ticks w
     \<and> lines_of (timing (ticks w) (reads (history w)) l1
                  @ timing (ticks w) (reads (history w) + 2) l2)
          = [l1 @ '': '' @ show_ms (duration_cast_us
                 (ticks w (reads (history w) + 1) - ticks w (reads (history w)))) @ '' ms'',
             l2 @ '': '' @ show_ms (duration_cast_us
                 (ticks w (reads (history w) + 3) - ticks w (reads (history w) + 2))) @ '' ms'']"
proof -
  let ?n = "reads (history w)"
  obtain v1 where 1: "timeFunction l1 noop w = (Returned v1 :: ('e, 's world) outcome)"
    "ticks v1 = ticks w" "user v1 = user w" "reads (history v1) = ?n + 2"
    "stdout_text (history v1) = stdout_text (history w) @ timing (ticks w) ?n l1"
    using timeFunction_untouched [of noop l1 w] by (auto simp: noop_def)
  obtain v2 where 2: "timeFunction l2 noop v1 = (Returned v2 :: ('e, 's world) outcome)"
    "ticks v2 = ticks w" "user v2 = user w"
    "stdout_text (history v2) = stdout_text (history v1) @ timing (ticks w) (?n + 2) l2"
    using timeFunction_untouched [of noop l2 v1] 1(2-4) by (auto simp: noop_def)
  have l: "lines_of (timing (ticks w) ?n l1 @ timing (ticks w) (?n + 2) l2)
             = [line_body l1 (duration_cast_us (ticks w (Suc ?n) - ticks w ?n)),
                line_body l2 (duration_cast_us (ticks w (Suc (?n + 2)) - ticks w (?n + 2)))]"
    unfolding lines_of_def timing_def
    by (simp add: lines_from_measurement [OF assms(1)] lines_of_measurement [OF assms(2)])
  from 1 2 l show ?thesis
    by (auto simp: line_body_def numeral_3_eq_3)
qed

theorem two_calls_two_lines_witness:
  "lines_of (timing (readings [0, 1500, 2000, 9000]) 0 ''first''
             @ timing (readings [0, 1500, 2000, 9000]) 2 ''second'')
     = [''first: 0.001 ms'', ''second: 0.007 ms'']"
proof -
  let ?w = "fresh (readings [0, 1500, 2000, 9000]) () :: unit world"
  have 0: "newline \<notin> set ''first''" "newline \<notin> set ''second''"
    by (simp_all add: newline_def)
  have 1: "reads (history ?w) = 0" "ticks ?w = readings [0, 1500, 2000, 9000]"
    by (simp_all add: fresh_def reads_def)
  have 2: "show_ms 1 = ''0.001''" "show_ms 7 = ''0.007''" by code_simp+
  from two_calls_two_lines [where w = ?w and ?l1.0 = "''first''" and ?l2.0 = "''second''"
      and ?'e = unit, OF 0]
  have "lines_of (timing (ticks ?w) (reads (history ?w)) ''first''
                  @ timing (ticks ?w) (reads (history ?w) + 2) ''second'')
          = [''first'' @ '': '' @ show_ms (duration_cast_us
                   (ticks ?w (reads (history ?w) + 1) - ticks ?w (reads (history ?w)))) @ '' ms'',
             ''second'' @ '': '' @ show_ms (duration_cast_us
                   (ticks ?w (reads (history ?w) + 3) - ticks ?w (reads (history ?w) + 2))) @ '' ms'']"
    by blast
  then show ?thesis
    unfolding 1 by (simp add: readings_def duration_cast_us_def 2 numeral_2_eq_2 numeral_3_eq_3)
qed

text \<open>
  When the first label contains a line break, the two calls write three lines.
\<close>

theorem two_labels_three_lines_counterexample:
  "lines_of (output_of (and_then
       (timeFunction [CHR ''a'', newline, CHR ''b'']
          (noop :: unit world \<Rightarrow> (unit, unit world) outcome) (fresh (readings [0, 0, 0, 0]) ()))
       (timeFunction ''c'' noop)))
     = [''a'', ''b: 0 ms'', ''c: 0 ms'']"
  by code_simp

section \<open>The entry point\<close>

text \<open>
  C8: \<^verbatim>\<open>main\<close> runs the seven examples one after the other in the order of the source,
  each starting in the world the one before left (pass by reference, string concatenation,
  vector reserve, emplace_back, set lookup, cache size, move semantics), and then returns
  exit code 0. All that the run prints is the banner, the seven sections in that order and
  the closing banner.
\<close>

theorem main_runs_examples_in_order:
  "\<exists>w1 w2 w3 w4 w5 w6 w7.
     testPassByReference (banner_open w) = (Returned w1 :: ('e, 's world) outcome)
     \<and> testStringConcatenation w1 = (Returned w2 :: ('e, 's world) outcome)
     \<and> testVectorReserve w2 = (Returned w3 :: ('e, 's world) outcome)
     \<and> testEmplaceBack w3 = (Returned w4 :: ('e, 's world) outcome)
     \<and> testSetLookup w4 = (Returned w5 :: ('e, 's world) outcome)
     \<and> testCacheSize w5 = (Returned w6 :: ('e, 's world) outcome)
     \<and> testMoveSemantics w6 = (Returned w7 :: ('e, 's world) outcome)
     \<and> main w = (Exit 0 (banner_close w7) :: ('e, 's world) exit)
     \<and> stdout_text (history (banner_close w7))
         = stdout_text (history w) @ expected_output (ticks w) (reads (history w))"
proof -
  let ?n = "reads (history w)"
  let ?w0 = "banner_open w"
  note o = banner_open_observed [of w]
  obtain w1 where 1: "testPassByReference ?w0 = (Returned w1 :: ('e, 's world) outcome)" "ticks w1 = ticks w"
    "reads (history w1) = ?n + 4"
    "stdout_text (history w1) = stdout_text (history ?w0)
       @ heading_text ''1. Pass by Value vs Reference (1M elements)''
       @ timing (ticks w) ?n ''Pass by Value (inefficient)''
       @ timing (ticks w) (?n + 2) ''Pass by Reference (efficient)''"
    using testPassByReference_observed [of ?w0] o by auto
  obtain w2 where 2: "testStringConcatenation w1 = (Returned w2 :: ('e, 's world) outcome)" "ticks w2 = ticks w"
    "reads (history w2) = ?n + 8"
    "stdout_text (history w2) = stdout_text (history w1)
       @ heading_text ''2. String Concatenation (10,000 elements)''
       @ timing (ticks w) (?n + 4) ''Using += operator (inefficient)''
       @ timing (ticks w) (?n + 6) ''Using reserve + += (efficient)''"
    using testStringConcatenation_observed [of w1] 1(2,3) by (auto simp: ac_simps)
  obtain w3 where 3: "testVectorReserve w2 = (Returned w3 :: ('e, 's world) outcome)" "ticks w3 = ticks w"
    "reads (history w3) = ?n + 12"
    "stdout_text (history w3) = stdout_text (history w2)
       @ heading_text ''3. Vector Reserve (100,000 elements)''
       @ timing (ticks w) (?n + 8) ''Without reserve (inefficient)''
       @ timing (ticks w) (?n + 10) ''With reserve (efficient)''"
    using testVectorReserve_observed [of w2] 2(2,3) by (auto simp: ac_simps)
  obtain w4 where 4: "testEmplaceBack w3 = (Returned w4 :: ('e, 's world) outcome)" "ticks w4 = ticks w"
    "reads (history w4) = ?n + 16"
    "stdout_text (history w4) = stdout_text (history w3)
       @ heading_text ''4. emplace_back vs push_back (100,000 elements)''
       @ timing (ticks w) (?n + 12) ''Using push_back (inefficient)''
       @ timing (ticks w) (?n + 14) ''Using emplace_back (efficient)''"
    using testEmplaceBack_observed [of w3] 3(2,3) by (auto simp: ac_simps)
  obtain w5 where 5: "testSetLookup w4 = (Returned w5 :: ('e, 's world) outcome)" "ticks w5 = ticks w"
    "reads (history w5) = ?n + 20"
    "stdout_text (history w5) = stdout_text (history w4)
       @ heading_text ''5. Set vs Unordered Set (100,000 lookups)''
       @ timing (ticks w) (?n + 16) ''std::set lookup - O(log n)''
       @ timing (ticks w) (?n + 18) ''std::unordered_set lookup - O(1)''"
    using testSetLookup_observed [of w4] 4(2,3) by (auto simp: ac_simps)
  obtain w6 where 6: "testCacheSize w5 = (Returned w6 :: ('e, 's world) outcome)" "ticks w6 = ticks w"
    "reads (history w6) = ?n + 26"
    "stdout_text (history w6) = stdout_text (history w5)
       @ heading_text ''6. Caching Vector Size (1M iterations)''
       @ timing (ticks w) (?n + 20) ''Calling size() in loop (inefficient)''
       @ timing (ticks w) (?n + 22) ''Caching size (efficient)''
       @ timing (ticks w) (?n + 24) ''Range-based for loop (most efficient)''"
    using testCacheSize_observed [of w5] 5(2,3) by (auto simp: ac_simps)
  obtain w7 where 7: "testMoveSemantics w6 = (Returned w7 :: ('e, 's world) outcome)"
    "stdout_text (history w7) = stdout_text (history w6)
       @ heading_text ''7. Copy vs Move Semantics''
       @ timing (ticks w) (?n + 26) ''Copy constructor (if used)''
       @ timing (ticks w) (?n + 28) ''Move constructor (efficient)''
       @ timing (ticks w) (?n + 30) ''Return value optimization''"
    using testMoveSemantics_observed [of w6] 6(2,3) by (auto simp: ac_simps)
  have m: "main w = (Exit 0 (banner_close w7) :: ('e, 's world) exit)"
    unfolding main_def by (simp add: 1(1) 2(1) 3(1) 4(1) 5(1) 6(1) 7(1))
  have t: "stdout_text (history (banner_close w7))
             = stdout_text (history w) @ expected_output (ticks w) ?n"
    unfolding banner_close_observed 7(2) 6(4) 5(4) 4(4) 3(4) 2(4) 1(4) expected_output_def
    using o by simp
  from 1(1) 2(1) 3(1) 4(1) 5(1) 6(1) 7(1) m t show ?thesis by blast
qed

section \<open>The two sums\<close>

text \<open>
  C9: for every vector of \<^verbatim>\<open>int\<close>, \<^verbatim>\<open>sumByValue\<close> and \<^verbatim>\<open>sumByReference\<close> return the same sum.
\<close>

theorem sumByValue_eq_sumByReference: "sumByValue vec = sumByReference vec"
  by (simp add: sumByValue_def sumByReference_def)

section \<open>The reported value\<close>

text \<open>
  C10: the harness prints the number of whole microseconds \<open>c\<close> in the measured duration,
  shown in milliseconds. When both readings are 64-bit counts whose difference is one too,
  and the reading after the work is not earlier than the reading before it, \<open>c\<close> is the
  duration divided by 1000 and rounded down, so \<open>c / 1000\<close> milliseconds is a multiple of
  0.001 that does not exceed the measured duration and falls short of it by less than one
  microsecond; and when the duration is also below one second, the printed number is
  \<open>c / 1000\<close> itself.
\<close>

theorem reported_truncates_toward_zero:
  assumes "func (snd (now w)) = Returned v" and "fst (now w) \<le> fst (now v)"
    and "fits_int64 (fst (now w))" and "fits_int64 (fst (now v))"
    and "fits_int64 (fst (now v) - fst (now w))"
  shows "sub64 (fst (now v)) (fst (now w)) = fst (now v) - fst (now w)
         \<and> elapsed_us w v = duration_cast_us (sub64 (fst (now v)) (fst (now w)))
         \<and> output_of (timeFunction name func w)
           = stdout_text (history v) @ name @ '': '' @ show_ms (elapsed_us w v) @ '' ms''
             @ [newline]
         \<and> elapsed_us w v = (fst (now v) - fst (now w)) div 1000
         \<and> true_ms (elapsed_us w v * 1000) = of_int (elapsed_us w v) * (1 / 1000)
         \<and> true_ms (elapsed_us w v * 1000) \<le> true_ms (fst (now v) - fst (now w))
         \<and> true_ms (fst (now v) - fst (now w)) - true_ms (elapsed_us w v * 1000) < 1 / 1000
         \<and> (fst (now v) - fst (now w) < 1000000000 \<longrightarrow>
              printed_value (elapsed_us w v) = of_int (elapsed_us w v) * (1 / 1000)
              \<and> printed_value (elapsed_us w v) \<le> true_ms (fst (now v) - fst (now w))
              \<and> true_ms (fst (now v) - fst (now w)) - printed_value (elapsed_us w v) < 1 / 1000)"
proof -
  let ?d = "fst (now v) - fst (now w)"
  have c: "elapsed_us w v = ?d div 1000"
    using assms(2) by (simp add: elapsed_us_def duration_cast_us_nonneg)
  have lo: "?d div 1000 * 1000 \<le> ?d" by simp
  have hi: "?d - ?d div 1000 * 1000 < 1000"
    using pos_mod_bound [of 1000 ?d] by (simp add: minus_div_mult_eq_mod)
  have o: "output_of (timeFunction name func w)
             = stdout_text (history v) @ measurement name (elapsed_us w v)"
    using timeFunction_Returned [where func = func and w = w and v = v and name = name] assms(1)
    by (simp add: output_of_def stdout_text_append stdout_text_Cons stdout_text_report)
  let ?c = "elapsed_us w v"
  have 1: "true_ms (?c * 1000) \<le> true_ms ?d"
    using lo unfolding true_ms_def c by (simp add: divide_right_mono)
  have "(of_int (?d - ?d div 1000 * 1000) :: rat) < of_int 1000"
    using hi by (simp only: of_int_less_iff)
  then have 2: "true_ms ?d - true_ms (?c * 1000) < 1 / 1000"
    unfolding true_ms_def c by (simp add: field_simps)
  have 3: "true_ms (?c * 1000) = of_int ?c * (1 / 1000)"
    by (simp add: true_ms_def)
  have 4: "printed_value ?c = of_int ?c * (1 / 1000)" if "?d < 1000000000"
  proof -
    have "0 \<le> ?d div 1000" using assms(2) by simp
    moreover have "?d div 1000 < 1000000" using that by simp
    ultimately show ?thesis unfolding c by (simp add: printed_value_exact)
  qed
  have 5: "output_of (timeFunction name func w)
             = stdout_text (history v) @ name @ '': '' @ show_ms ?c @ '' ms'' @ [newline]"
    unfolding o by (simp add: measurement_def line_body_def)
  have s: "sub64 (fst (now v)) (fst (now w)) = ?d"
    using assms(5) by (rule sub64_exact)
  show ?thesis
  proof (intro conjI impI)
    show "sub64 (fst (now v)) (fst (now w)) = ?d" by (fact s)
    show "?c = duration_cast_us (sub64 (fst (now v)) (fst (now w)))"
      unfolding s by (simp add: elapsed_us_def)
    show "output_of (timeFunction name func w)
            = stdout_text (history v) @ name @ '': '' @ show_ms ?c @ '' ms'' @ [newline]"
      by (fact 5)
    show "?c = ?d div 1000" by (fact c)
    show "true_ms (?c * 1000) = of_int ?c * (1 / 1000)" by (fact 3)
    show "true_ms (?c * 1000) \<le> true_ms ?d" by (fact 1)
    show "true_ms ?d - true_ms (?c * 1000) < 1 / 1000" by (fact 2)
  next
    assume d: "?d < 1000000000"
    show "printed_value ?c = of_int ?c * (1 / 1000)" by (rule 4 [OF d])
    show "printed_value ?c \<le> true_ms ?d"
      unfolding 4 [OF d] 3 [symmetric] by (fact 1)
    show "true_ms ?d - printed_value ?c < 1 / 1000"
      unfolding 4 [OF d] 3 [symmetric] by (fact 2)
  qed
qed

theorem reported_truncates_toward_zero_witness:
  "fits_int64 0 \<and> fits_int64 1234567 \<and> fits_int64 (1234567 - 0)
   \<and> sub64 1234567 0 = 1234567 - 0
   \<and> output_of (timeFunction ''t'' (noop :: unit world \<Rightarrow> (unit, unit world) outcome)
        (fresh (readings [0, 1234567]) ())) = ''t: 1.234 ms'' @ [newline]
   \<and> printed_value 1234 = 1234 * (1 / 1000)
   \<and> printed_value 1234 \<le> true_ms 1234567
   \<and> true_ms 1234567 - printed_value 1234 < 1 / 1000"
proof -
  let ?w = "fresh (readings [0, 1234567]) () :: unit world"
  let ?f = "noop :: unit world \<Rightarrow> (unit, unit world) outcome"
  have 1: "?f (snd (now ?w)) = Returned (snd (now ?w))"
    by (simp add: noop_def)
  have a: "fst (now ?w) = 0" "fst (now (snd (now ?w))) = 1234567"
    by (simp_all add: now_fst now_snd fresh_def reads_def readings_def)
  have 2: "fst (now ?w) \<le> fst (now (snd (now ?w)))"
    unfolding a by simp
  have r: "fits_int64 (fst (now ?w))" "fits_int64 (fst (now (snd (now ?w))))"
    "fits_int64 (fst (now (snd (now ?w))) - fst (now ?w))"
    unfolding a by (simp_all add: fits_int64_def)
  have 3: "elapsed_us ?w (snd (now ?w)) = 1234"
    by (simp add: elapsed_us_def a duration_cast_us_def)
  have 4: "show_ms 1234 = ''1.234''" by code_simp
  have 5: "stdout_text (history (snd (now ?w))) = []"
    by (simp add: now_snd fresh_def stdout_text_def)
  note t = reported_truncates_toward_zero [where name = "''t''" and w = ?w
      and v = "snd (now ?w)" and func = ?f, OF 1 2 r, unfolded 3 4 5 a]
  from t r [unfolded a] show ?thesis by simp
qed

text \<open>
  The stream shows six significant digits only: a duration of 1234.567 ms is printed as
  \<^verbatim>\<open>1234.57\<close>, more than was measured. And a negative duration is truncated towards
  zero, which is upwards.
\<close>

theorem six_digits_counterexample:
  "output_of (timeFunction ''t'' (noop :: unit world \<Rightarrow> (unit, unit world) outcome)
        (fresh (readings [0, 1234567000]) ())) = ''t: 1234.57 ms'' @ [newline]
   \<and> true_ms (1234567000 - 0) < printed_value (duration_cast_us (1234567000 - 0))
   \<and> true_ms (- 1500 - 0) < true_ms (duration_cast_us (- 1500 - 0) * 1000)"
  by code_simp

end
